theory Spec2Isabelle
  imports Complex_Main "HOL-Library.Sublist"
begin

section \<open>Text\<close>

text \<open>
  A Python \<open>str\<close> is a sequence of Unicode code points, modelled as a list of naturals.
  \<open>cps\<close> reads an ASCII literal as such a sequence.

  The character functions below (\<open>lower_cp\<close>, \<open>isspace\<close>, \<open>isdigit\<close>) are those of
  Python 3 on the Basic Latin and Latin-1 Supplement blocks (code points below 256), on the
  Romanian letters outside them, and on the Unicode white space characters; any other code
  point is taken as a caseless symbol that is neither a digit nor white space.
\<close>

type_synonym str = "nat list"

definition cps :: "string \<Rightarrow> str" where
  "cps s = map of_char s"

definition lower_cp :: "nat \<Rightarrow> nat" where
  "lower_cp c =
     (if 65 \<le> c \<and> c \<le> 90 then c + 32
      else if 192 \<le> c \<and> c \<le> 222 \<and> c \<noteq> 215 then c + 32
      else if c = 258 \<or> c = 350 \<or> c = 354 \<or> c = 536 \<or> c = 538 then c + 1
      else c)"

definition lower :: "str \<Rightarrow> str" where
  "lower s = map lower_cp s"

text \<open>\<open>a in b\<close> on strings: \<open>a\<close> occurs in \<open>b\<close> as a contiguous run.\<close>

fun str_in :: "str \<Rightarrow> str \<Rightarrow> bool" where
  "str_in a [] = (a = [])"
| "str_in a (y # ys) = (prefix a (y # ys) \<or> str_in a ys)"

section \<open>The catalog index\<close>

text \<open>
  An activity of the catalog is a JSON object; the matcher reads its \<open>title\<close> only, the
  remaining members (description, images, sections, schedule, url, tier) are \<open>members\<close>.
  The two globals \<open>activity_names\<close> and \<open>activity_details_map\<close> are built by one loop
  over the catalog.
\<close>

record 'a activity =
  title :: str
  members :: 'a

record 'a index =
  activity_names :: "str list"
  activity_details_map :: "str \<rightharpoonup> 'a activity"

definition empty_index :: "'a index" where
  "empty_index = \<lparr>activity_names = [], activity_details_map = Map.empty\<rparr>"

definition add_activity :: "'a index \<Rightarrow> 'a activity \<Rightarrow> 'a index" where
  "add_activity ix a =
     \<lparr>activity_names = activity_names ix @ [title a],
      activity_details_map = (activity_details_map ix)(title a \<mapsto> a)\<rparr>"

definition build_index :: "'a activity list \<Rightarrow> 'a index" where
  "build_index acts = foldl add_activity empty_index acts"

section \<open>find_best_match\<close>

text \<open>
  The similarity scorers come from the rapidfuzz library and are parameters of the model:
  each maps two strings to a score, a number between 0 and 100.
\<close>

type_synonym scorer = "str \<Rightarrow> str \<Rightarrow> rat"

record fuzz =
  ratio :: scorer
  partial_ratio :: scorer
  token_sort_ratio :: scorer
  token_set_ratio :: scorer

type_synonym 'a match = "'a activity option \<times> rat"

text \<open>First loop: the exact match, case-insensitive.\<close>

fun exact_match :: "'a index \<Rightarrow> str \<Rightarrow> str list \<Rightarrow> 'a match option" where
  "exact_match ix schedule_name [] = None"
| "exact_match ix schedule_name (activity_name # names) =
     (if lower schedule_name = lower activity_name
      then Some (activity_details_map ix activity_name, 100)
      else exact_match ix schedule_name names)"

text \<open>Second loop: the partial match, one name contained in the other.\<close>

definition partial_score :: "fuzz \<Rightarrow> str \<Rightarrow> str \<Rightarrow> rat" where
  "partial_score fz schedule_name activity_name =
     max (ratio fz schedule_name activity_name)
       (max (partial_ratio fz schedule_name activity_name)
            (token_sort_ratio fz schedule_name activity_name))"

definition contains :: "str \<Rightarrow> str \<Rightarrow> bool" where
  "contains schedule_name activity_name =
     (str_in (lower schedule_name) (lower activity_name)
      \<or> str_in (lower activity_name) (lower schedule_name))"

fun partial_match :: "fuzz \<Rightarrow> 'a index \<Rightarrow> str \<Rightarrow> rat \<Rightarrow> str list \<Rightarrow> 'a match option" where
  "partial_match fz ix schedule_name threshold [] = None"
| "partial_match fz ix schedule_name threshold (activity_name # names) =
     (if contains schedule_name activity_name
      then (let score = partial_score fz schedule_name activity_name
            in if score \<ge> threshold
               then Some (activity_details_map ix activity_name, score)
               else partial_match fz ix schedule_name threshold names)
      else partial_match fz ix schedule_name threshold names)"

text \<open>
  Modelled from the spec: \<open>process.extractOne\<close> of the rapidfuzz library, which is not
  among the sources. It searches the entire ordered sequence for the single
  highest-scoring candidate at or above the cutoff and returns it with its score and its
  position, the earliest one when several candidates share the highest score; it returns
  nothing when no candidate reaches the cutoff.
\<close>

fun extract_scan ::
  "scorer \<Rightarrow> str \<Rightarrow> rat \<Rightarrow> (str \<times> rat \<times> nat) option \<Rightarrow> nat \<Rightarrow> str list
   \<Rightarrow> (str \<times> rat \<times> nat) option" where
  "extract_scan sc query cutoff res i [] = res"
| "extract_scan sc query cutoff res i (choice # choices) =
     (let score = sc query choice
      in extract_scan sc query cutoff
           (if score \<ge> cutoff \<and> (case res of None \<Rightarrow> True | Some (_, best, _) \<Rightarrow> score > best)
            then Some (choice, score, i) else res)
           (Suc i) choices)"

definition extractOne :: "str \<Rightarrow> str list \<Rightarrow> scorer \<Rightarrow> rat \<Rightarrow> (str \<times> rat \<times> nat) option" where
  "extractOne query choices sc score_cutoff = extract_scan sc query score_cutoff None 0 choices"

text \<open>Third loop: the four scorers in turn, the best result so far kept.\<close>

definition try_scorer :: "'a index \<Rightarrow> str \<Rightarrow> rat \<Rightarrow> 'a match \<Rightarrow> scorer \<Rightarrow> 'a match" where
  "try_scorer ix schedule_name threshold best sc =
     (case extractOne schedule_name (activity_names ix) sc threshold of
        None \<Rightarrow> best
      | Some (matched_name, score, _) \<Rightarrow>
          if score > snd best then (activity_details_map ix matched_name, score) else best)"

definition scorers :: "fuzz \<Rightarrow> scorer list" where
  "scorers fz = [ratio fz, partial_ratio fz, token_sort_ratio fz, token_set_ratio fz]"

definition fuzzy_match :: "fuzz \<Rightarrow> 'a index \<Rightarrow> str \<Rightarrow> rat \<Rightarrow> 'a match" where
  "fuzzy_match fz ix schedule_name threshold =
     foldl (try_scorer ix schedule_name threshold) (None, 0) (scorers fz)"

definition find_best_match :: "fuzz \<Rightarrow> 'a index \<Rightarrow> str \<Rightarrow> rat \<Rightarrow> 'a match" where
  "find_best_match fz ix schedule_name threshold =
     (case exact_match ix schedule_name (activity_names ix) of
        Some r \<Rightarrow> r
      | None \<Rightarrow>
          (case partial_match fz ix schedule_name threshold (activity_names ix) of
             Some r \<Rightarrow> r
           | None \<Rightarrow> fuzzy_match fz ix schedule_name threshold))"

definition default_threshold :: rat where
  "default_threshold = 60"

section \<open>parse_schedule_program\<close>

text \<open>White space as \<open>str.strip\<close> and the pattern \<open>\s\<close> see it; digits as \<open>\d\<close> sees them.\<close>

definition isspace :: "nat \<Rightarrow> bool" where
  "isspace c =
     ((9 \<le> c \<and> c \<le> 13) \<or> (28 \<le> c \<and> c \<le> 32) \<or> c = 133 \<or> c = 160 \<or> c = 5760
      \<or> (8192 \<le> c \<and> c \<le> 8202) \<or> c = 8232 \<or> c = 8233 \<or> c = 8239 \<or> c = 8287 \<or> c = 12288)"

definition isdigit :: "nat \<Rightarrow> bool" where
  "isdigit c = (48 \<le> c \<and> c \<le> 57)"

definition strip :: "str \<Rightarrow> str" where
  "strip s = rev (dropWhile isspace (rev (dropWhile isspace s)))"

text \<open>\<open>text.split('\n')\<close>: the pieces between line feeds; the empty text has one empty piece.\<close>

fun split_nl :: "str \<Rightarrow> str list" where
  "split_nl [] = [[]]"
| "split_nl (c # cs) =
     (if c = 10 then [] # split_nl cs
      else (case split_nl cs of [] \<Rightarrow> [[c]] | l # ls \<Rightarrow> (c # l) # ls))"

record entry =
  days :: str
  location :: str
  time :: str

text \<open>
  The pattern \<open>^\d{1,2}:\d{2}(\s*-\s*\d{1,2}:\d{2})?$\<close>, matched from the start of the line.
  \<open>hour_minute\<close> matches \<open>\d{1,2}:\d{2}\<close> and returns what follows; \<open>at_end\<close> is \<open>$\<close>, the
  end of the string or the position before a final line feed.
\<close>

definition hour_minute :: "str \<Rightarrow> str option" where
  "hour_minute s =
     (case s of
        a # b # c # d # r \<Rightarrow>
          if isdigit a \<and> b = 58 \<and> isdigit c \<and> isdigit d then Some r
          else (case r of
                  e # r' \<Rightarrow>
                    if isdigit a \<and> isdigit b \<and> c = 58 \<and> isdigit d \<and> isdigit e then Some r'
                    else None
                | [] \<Rightarrow> None)
      | _ \<Rightarrow> None)"

definition at_end :: "str \<Rightarrow> bool" where
  "at_end r = (r = [] \<or> r = [10])"

definition is_time_line :: "str \<Rightarrow> bool" where
  "is_time_line v =
     (case hour_minute v of
        None \<Rightarrow> False
      | Some r \<Rightarrow>
          (case dropWhile isspace r of
             c # r1 \<Rightarrow>
               (c = 45 \<and> (case hour_minute (dropWhile isspace r1) of
                            None \<Rightarrow> False
                          | Some r2 \<Rightarrow> at_end r2))
               \<or> at_end r
           | [] \<Rightarrow> at_end r))"

text \<open>
  The day tokens as the source file holds them: three of them are the UTF-8 bytes of a
  Romanian spelling read as another encoding, so they hold the code points
  \<open>U+00C8 U+203A\<close>, \<open>U+00C3 U+00A2\<close> and \<open>U+00C4 U+0192\<close>.
\<close>

definition day_tokens :: "str list" where
  "day_tokens =
     [cps ''luni'', cps ''marti'', cps ''mar'' @ [200, 8250] @ cps ''i'', cps ''miercuri'',
      cps ''joi'', cps ''vineri'',
      cps ''sambata'', cps ''s'' @ [195, 162] @ cps ''mb'' @ [196, 402] @ cps ''t'' @ [196, 402],
      cps ''duminica'', cps ''duminic'' @ [196, 402]]"

definition is_days_line :: "str \<Rightarrow> bool" where
  "is_days_line v = list_ex (\<lambda>token. str_in token (lower v)) day_tokens"

text \<open>The state of the loop over the lines, and one turn of it.\<close>

record pstate =
  entries :: "entry list"
  current_days :: "str option"
  current_location :: "str option"

definition init_state :: pstate where
  "init_state = \<lparr>entries = [], current_days = None, current_location = None\<rparr>"

text \<open>Python truth of an optional string: neither \<open>None\<close> nor empty.\<close>

definition truthy :: "str option \<Rightarrow> bool" where
  "truthy v = (case v of None \<Rightarrow> False | Some s \<Rightarrow> s \<noteq> [])"

definition or_empty :: "str option \<Rightarrow> str" where
  "or_empty v = (case v of None \<Rightarrow> [] | Some s \<Rightarrow> s)"

text \<open>The time branch with a location at hand: a row is appended and the location cleared.\<close>

definition emit :: "pstate \<Rightarrow> str \<Rightarrow> pstate" where
  "emit st line =
     st\<lparr>entries := entries st @
           [\<lparr>days = or_empty (current_days st),
             location = or_empty (current_location st),
             time = line\<rparr>],
        current_location := None\<rparr>"

definition step :: "pstate \<Rightarrow> str \<Rightarrow> pstate" where
  "step st line =
     (if is_days_line line
      then st\<lparr>current_days := Some line, current_location := None\<rparr>
      else if is_time_line line
      then (if truthy (current_location st) then emit st line else st)
      else st\<lparr>current_location := Some line\<rparr>)"

text \<open>
  The kind of a line. \<open>classify\<close> names the branch of the loop body that a line takes, in
  the order in which the source tests it: the days test first, then the time test.
\<close>

datatype line_kind = TimeLine | DaysLine | LocationLine

definition classify :: "str \<Rightarrow> line_kind" where
  "classify line =
     (if is_days_line line then DaysLine
      else if is_time_line line then TimeLine
      else LocationLine)"

text \<open>
  The classifier in the words of the specification. A days line contains, without regard
  to case, a weekday name, the diacritic variants of the Romanian names included: the
  letters \<open>U+021B\<close>, \<open>U+00E2\<close> and \<open>U+0103\<close> that the three mis-encoded tokens of the source
  stand for. The time test comes first, the days test only for a line that is not a time
  line, and any other line is a location line.
\<close>

definition spec_day_tokens :: "str list" where
  "spec_day_tokens =
     [cps ''luni'', cps ''marti'', cps ''mar'' @ [539] @ cps ''i'', cps ''miercuri'',
      cps ''joi'', cps ''vineri'',
      cps ''sambata'', cps ''s'' @ [226] @ cps ''mb'' @ [259] @ cps ''t'' @ [259],
      cps ''duminica'', cps ''duminic'' @ [259]]"

definition is_days_line_spec :: "str \<Rightarrow> bool" where
  "is_days_line_spec v = list_ex (\<lambda>token. str_in token (lower v)) spec_day_tokens"

definition classify_spec :: "str \<Rightarrow> line_kind" where
  "classify_spec line =
     (if is_time_line line then TimeLine
      else if is_days_line_spec line then DaysLine
      else LocationLine)"

definition clean_lines :: "str \<Rightarrow> str list" where
  "clean_lines program_text =
     map strip (filter (\<lambda>line. strip line \<noteq> []) (split_nl program_text))"

definition drop_program :: "str list \<Rightarrow> str list" where
  "drop_program lines =
     (case lines of
        l # ls \<Rightarrow> if lower l = cps ''program'' then ls else lines
      | [] \<Rightarrow> lines)"

definition drop_title :: "str option \<Rightarrow> str list \<Rightarrow> str list" where
  "drop_title activity_title lines =
     (case lines of
        l # ls \<Rightarrow>
          if truthy activity_title \<and> lower l = lower (or_empty activity_title) then ls else lines
      | [] \<Rightarrow> lines)"

definition parse_schedule_program :: "str \<Rightarrow> str option \<Rightarrow> entry list" where
  "parse_schedule_program program_text activity_title =
     (if program_text = [] then []
      else (let lines = clean_lines program_text
            in if lines = [] then []
               else entries (foldl step init_state
                               (drop_title activity_title (drop_program lines)))))"

section \<open>unmatched_activities\<close>

text \<open>
  The schedule maps a day to its data; of an activity of the schedule only \<open>name\<close> is read
  here, \<open>None\<close> standing for an object without that member, which counts as the empty
  name. The source collects the names into a set and the matched titles into another; the
  model lists the names in schedule order and takes the set of the matched titles, so
  neither the order nor a repetition of a name counts. A matched record is a JSON object
  with a title, hence true in a condition.
\<close>

record item =
  name :: "str option"

record day_data =
  activities :: "item list option"

definition schedule_names :: "day_data list \<Rightarrow> str list" where
  "schedule_names schedule =
     concat (map (\<lambda>day_data. map (\<lambda>activity. or_empty (name activity))
                                (case activities day_data of None \<Rightarrow> [] | Some acts \<Rightarrow> acts))
                 schedule)"

definition matched_activity_titles :: "fuzz \<Rightarrow> 'a index \<Rightarrow> str list \<Rightarrow> str set" where
  "matched_activity_titles fz ix names =
     set (concat (map (\<lambda>schedule_name.
                         case fst (find_best_match fz ix schedule_name default_threshold) of
                           None \<Rightarrow> []
                         | Some details \<Rightarrow> [title details])
                      names))"

definition unmatched_activities :: "fuzz \<Rightarrow> 'a index \<Rightarrow> day_data list \<Rightarrow> str list" where
  "unmatched_activities fz ix schedule =
     filter (\<lambda>name. name \<notin> matched_activity_titles fz ix (schedule_names schedule))
            (activity_names ix)"

section \<open>Auxiliary notions\<close>

text \<open>
  What the third loop of \<open>find_best_match\<close> holds at any moment: nothing with score 0, or
  the record of a catalog name with a positive score.
\<close>

definition match_shape :: "'a index \<Rightarrow> 'a match \<Rightarrow> bool" where
  "match_shape ix b \<longleftrightarrow>
     b = (None, 0)
     \<or> (\<exists>n\<in>set (activity_names ix). b = (activity_details_map ix n, snd b) \<and> 0 < snd b)"

section \<open>Sample catalogs and scores\<close>

text \<open>
  Concrete inputs for the instances below. A sample scorer reads its score for a candidate
  from a table and rates the empty query 0.
\<close>

definition table_scorer :: "(str \<times> rat) list \<Rightarrow> scorer" where
  "table_scorer tab query choice =
     (if query = [] then 0 else case map_of tab choice of None \<Rightarrow> 0 | Some s \<Rightarrow> s)"

definition sample_fuzz :: fuzz where
  "sample_fuzz =
     \<lparr>ratio = table_scorer
        [(cps ''AUFGUSS Z'', 25 / 2), (cps ''aufguss x'', 75), (cps ''Aufguss y'', 175 / 2),
         (cps ''Banja Ritual'', 80), (cps ''Ritual Banja'', 60)],
      partial_ratio = table_scorer
        [(cps ''AUFGUSS Z'', 100 / 7), (cps ''aufguss x'', 600 / 7), (cps ''Aufguss y'', 100),
         (cps ''Banja Ritual'', 70), (cps ''Ritual Banja'', 80)],
      token_sort_ratio = table_scorer
        [(cps ''AUFGUSS Z'', 25 / 2), (cps ''aufguss x'', 75), (cps ''Aufguss y'', 175 / 2),
         (cps ''Banja Ritual'', 50), (cps ''Ritual Banja'', 50)],
      token_set_ratio = table_scorer
        [(cps ''AUFGUSS Z'', 25 / 2), (cps ''aufguss x'', 75), (cps ''Aufguss y'', 100),
         (cps ''Banja Ritual'', 80), (cps ''Ritual Banja'', 80)]\<rparr>"

definition aufguss_catalog :: "nat activity list" where
  "aufguss_catalog =
     [\<lparr>title = cps ''AUFGUSS Z'', members = 0\<rparr>,
      \<lparr>title = cps ''aufguss x'', members = 1\<rparr>,
      \<lparr>title = cps ''Aufguss y'', members = 2\<rparr>]"

definition ritual_catalog :: "nat activity list" where
  "ritual_catalog =
     [\<lparr>title = cps ''Banja Ritual'', members = 0\<rparr>,
      \<lparr>title = cps ''Ritual Banja'', members = 1\<rparr>]"

definition sauna_catalog :: "nat activity list" where
  "sauna_catalog =
     [\<lparr>title = cps ''Aufguss y'', members = 0\<rparr>,
      \<lparr>title = cps ''Salt Sauna'', members = 1\<rparr>,
      \<lparr>title = cps ''Salt Sauna'', members = 2\<rparr>]"

definition shouting_catalog :: "nat activity list" where
  "shouting_catalog =
     [\<lparr>title = cps ''SALT SAUNA'', members = 0\<rparr>,
      \<lparr>title = cps ''Salt Sauna'', members = 1\<rparr>,
      \<lparr>title = cps ''Salt Sauna'', members = 2\<rparr>]"

definition twin_catalog :: "nat activity list" where
  "twin_catalog =
     [\<lparr>title = cps ''Salt Sauna'', members = 0\<rparr>,
      \<lparr>title = cps ''SALT SAUNA'', members = 1\<rparr>]"

definition twin_schedule :: "day_data list" where
  "twin_schedule =
     [\<lparr>activities = Some [\<lparr>name = Some (cps ''Salt Sauna'')\<rparr>,
                           \<lparr>name = Some (cps ''SALT SAUNA'')\<rparr>]\<rparr>]"

definition sauna_schedule :: "day_data list" where
  "sauna_schedule =
     [\<lparr>activities = Some [\<lparr>name = Some (cps ''Salt Sauna'')\<rparr>]\<rparr>,
      \<lparr>activities = None\<rparr>,
      \<lparr>activities = Some [\<lparr>name = Some (cps ''Aufguss y'')\<rparr>, \<lparr>name = None\<rparr>]\<rparr>]"

text \<open>The day name \<open>Mar\<close>, \<open>U+021B\<close>, \<open>i\<close>, and a text of three lines that starts with it.\<close>

definition marti_line :: str where
  "marti_line = cps ''Mar'' @ [539] @ cps ''i''"

definition marti_text :: str where
  "marti_text = marti_line @ [10] @ cps ''Sauna'' @ [10] @ cps ''18:00 - 19:00''"

definition sample_text :: str where
  "sample_text =
     cps ''Program'' @ [10] @ cps ''Luni'' @ [10] @ cps ''Sauna'' @ [10] @ cps ''18:00 - 19:00''"

section \<open>The index after the load\<close>

lemma names_foldl:
  "activity_names (foldl add_activity ix acts) = activity_names ix @ map title acts"
  by (induction acts arbitrary: ix) (simp_all add: add_activity_def)

lemma names_build_index: "activity_names (build_index acts) = map title acts"
  by (simp add: build_index_def names_foldl empty_index_def)

lemma map_foldl:
  "activity_details_map (foldl add_activity ix acts) =
     activity_details_map ix ++ map_of (rev (map (\<lambda>a. (title a, a)) acts))"
  by (induction acts arbitrary: ix) (simp_all add: add_activity_def map_add_upd_left fun_eq_iff map_add_def split: option.splits)

lemma map_build_index:
  "activity_details_map (build_index acts) = map_of (rev (map (\<lambda>a. (title a, a)) acts))"
  by (simp add: build_index_def map_foldl empty_index_def)

lemma map_build_index_last:
  assumes "acts = pre @ a # post" "\<forall>b\<in>set post. title b \<noteq> title a"
  shows "activity_details_map (build_index acts) (title a) = Some a"
proof -
  have "map_of (rev (map (\<lambda>a. (title a, a)) post)) (title a) = None"
    using assms(2) by (auto simp: map_of_eq_None_iff image_iff)
  then show ?thesis
    by (simp add: map_build_index assms(1) map_add_def)
qed

lemma map_build_index_Some:
  assumes "activity_details_map (build_index acts) n = Some a"
  shows "a \<in> set acts \<and> title a = n"
proof -
  from assms have "(n, a) \<in> set (rev (map (\<lambda>a. (title a, a)) acts))"
    unfolding map_build_index by (rule map_of_SomeD)
  then show ?thesis by auto
qed

lemma map_build_index_dom:
  assumes "n \<in> set (activity_names (build_index acts))"
  shows "\<exists>a. activity_details_map (build_index acts) n = Some a"
proof -
  from assms have "n \<in> fst ` set (rev (map (\<lambda>a. (title a, a)) acts))"
    by (auto simp: names_build_index image_iff)
  then have "map_of (rev (map (\<lambda>a. (title a, a)) acts)) n \<noteq> None"
    by (simp only: map_of_eq_None_iff not_not)
  then show ?thesis by (auto simp: map_build_index)
qed

section \<open>The three loops of find_best_match\<close>

lemma exact_match_None_iff:
  "exact_match ix q ns = None \<longleftrightarrow> (\<forall>n\<in>set ns. lower q \<noteq> lower n)"
  by (induction ns) auto

lemma exact_match_first:
  assumes "\<forall>m\<in>set pre. lower q \<noteq> lower m" "lower q = lower n"
  shows "exact_match ix q (pre @ n # post) = Some (activity_details_map ix n, 100)"
  using assms by (induction pre) auto


lemma partial_match_None_iff:
  "partial_match fz ix q t ns = None \<longleftrightarrow> (\<forall>n\<in>set ns. contains q n \<longrightarrow> partial_score fz q n < t)"
  by (induction ns) (auto simp: Let_def)

lemma partial_match_first:
  assumes "\<forall>n\<in>set pre. contains q n \<longrightarrow> partial_score fz q n < t"
    and "contains q a" and "t \<le> partial_score fz q a"
  shows "partial_match fz ix q t (pre @ a # post) = Some (activity_details_map ix a, partial_score fz q a)"
  using assms by (induction pre) (auto simp: Let_def)

lemma partial_match_Some:
  assumes "partial_match fz ix q t ns = Some r"
  shows "\<exists>n\<in>set ns. r = (activity_details_map ix n, partial_score fz q n) \<and> contains q n \<and> t \<le> partial_score fz q n"
  using assms by (induction ns) (auto simp: Let_def split: if_splits)

lemma extract_scan_Some_start: "extract_scan sc q t (Some x) i ns \<noteq> None"
  by (induction ns arbitrary: x i) (auto simp: Let_def)

lemma extract_scan_None_iff:
  "extract_scan sc q t None i ns = None \<longleftrightarrow> (\<forall>n\<in>set ns. sc q n < t)"
  by (induction ns arbitrary: i) (auto simp: Let_def extract_scan_Some_start)

lemma extract_scan_Some:
  assumes "extract_scan sc q t res i ns = Some (m, s, k)"
    and "\<forall>m' b k'. res = Some (m', b, k') \<longrightarrow> t \<le> b"
  shows "t \<le> s \<and> (\<forall>n\<in>set ns. sc q n \<le> s) \<and> (\<forall>m' b k'. res = Some (m', b, k') \<longrightarrow> b \<le> s)
         \<and> (res = Some (m, s, k) \<or> (m \<in> set ns \<and> s = sc q m))"
  using assms
proof (induction ns arbitrary: res i)
  case Nil
  then show ?case by auto
next
  case (Cons c cs)
  let ?res' = "if sc q c \<ge> t \<and> (case res of None \<Rightarrow> True | Some (_, best, _) \<Rightarrow> sc q c > best)
            then Some (c, sc q c, i) else res"
  have run: "extract_scan sc q t ?res' (Suc i) cs = Some (m, s, k)"
    using Cons.prems(1) by (simp add: Let_def)
  have inv: "\<forall>m' b k'. ?res' = Some (m', b, k') \<longrightarrow> t \<le> b"
    using Cons.prems(2) by auto
  from Cons.IH[OF run inv]
  have ih: "t \<le> s" "\<forall>n\<in>set cs. sc q n \<le> s" "\<forall>m' b k'. ?res' = Some (m', b, k') \<longrightarrow> b \<le> s"
    "?res' = Some (m, s, k) \<or> (m \<in> set cs \<and> s = sc q m)"
    by blast+
  have c_le: "sc q c \<le> s"
    using ih(1) ih(3) by (cases res) (auto split: if_splits)
  have res_le: "\<forall>m' b k'. res = Some (m', b, k') \<longrightarrow> b \<le> s"
    using ih(3) by (cases res) (auto split: if_splits)
  have src: "res = Some (m, s, k) \<or> (m \<in> set (c # cs) \<and> s = sc q m)"
    using ih(4) by (auto split: if_splits)
  show ?case using ih(1) ih(2) c_le res_le src by auto
qed

lemma extractOne_None_iff:
  "extractOne q ns sc t = None \<longleftrightarrow> (\<forall>n\<in>set ns. sc q n < t)"
  by (simp add: extractOne_def extract_scan_None_iff)

lemma extractOne_Some:
  assumes "extractOne q ns sc t = Some (m, s, k)"
  shows "m \<in> set ns \<and> s = sc q m \<and> t \<le> s \<and> (\<forall>n\<in>set ns. sc q n \<le> s)"
proof -
  have "extract_scan sc q t None 0 ns = Some (m, s, k)"
    using assms by (simp add: extractOne_def)
  from extract_scan_Some[OF this] show ?thesis by blast
qed

lemma extractOne_mono:
  assumes "t1 \<le> t2" "extractOne q ns sc t2 = Some (m, s, k)"
  shows "\<exists>m' s' k'. extractOne q ns sc t1 = Some (m', s', k') \<and> s \<le> s'"
proof -
  from extractOne_Some[OF assms(2)] have m: "m \<in> set ns" "s = sc q m" "t2 \<le> s" by auto
  then have "extractOne q ns sc t1 \<noteq> None"
    using assms(1) by (auto simp: extractOne_None_iff intro!: bexI[of _ m])
  then obtain m' s' k' where e: "extractOne q ns sc t1 = Some (m', s', k')"
    by (cases "extractOne q ns sc t1") auto
  from extractOne_Some[OF e] m have "s \<le> s'" by auto
  with e show ?thesis by blast
qed

lemma try_scorer_None:
  "extractOne q (activity_names ix) sc t = None \<Longrightarrow> try_scorer ix q t b sc = b"
  by (simp add: try_scorer_def)

lemma try_scorer_Some:
  "extractOne q (activity_names ix) sc t = Some (m, s, k) \<Longrightarrow>
   try_scorer ix q t b sc = (if s > snd b then (activity_details_map ix m, s) else b)"
  by (simp add: try_scorer_def)

lemma foldl_try_below:
  assumes "\<forall>sc'\<in>set scs. \<forall>m' s' k'. extractOne q (activity_names ix) sc' t = Some (m', s', k') \<longrightarrow> s' < s"
    and "snd b < s"
  shows "snd (foldl (try_scorer ix q t) b scs) < s"
  using assms
proof (induction scs arbitrary: b)
  case Nil
  then show ?case by simp
next
  case (Cons sc scs)
  have "snd (try_scorer ix q t b sc) < s"
  proof (cases "extractOne q (activity_names ix) sc t")
    case None
    then show ?thesis using Cons.prems(2) by (simp add: try_scorer_None)
  next
    case (Some r)
    obtain m' s' k' where r: "r = (m', s', k')" by (cases r)
    with Some Cons.prems(1) have "s' < s" by auto
    then show ?thesis using Some r Cons.prems(2) by (simp add: try_scorer_Some)
  qed
  then show ?case using Cons by simp
qed

lemma foldl_try_keep:
  assumes "\<forall>sc'\<in>set scs. \<forall>m' s' k'. extractOne q (activity_names ix) sc' t = Some (m', s', k') \<longrightarrow> s' \<le> snd b"
  shows "foldl (try_scorer ix q t) b scs = b"
  using assms
proof (induction scs)
  case Nil
  then show ?case by simp
next
  case (Cons sc scs)
  have "try_scorer ix q t b sc = b"
  proof (cases "extractOne q (activity_names ix) sc t")
    case None
    then show ?thesis by (simp add: try_scorer_None)
  next
    case (Some r)
    obtain m' s' k' where r: "r = (m', s', k')" by (cases r)
    with Some Cons.prems have "s' \<le> snd b" by auto
    then show ?thesis using Some r by (simp add: try_scorer_Some)
  qed
  then show ?case using Cons by simp
qed

lemma foldl_try_winner:
  assumes "extractOne q (activity_names ix) sc t = Some (m, s, k)"
    and "snd b < s"
    and "\<forall>sc'\<in>set pre. \<forall>m' s' k'. extractOne q (activity_names ix) sc' t = Some (m', s', k') \<longrightarrow> s' < s"
    and "\<forall>sc'\<in>set post. \<forall>m' s' k'. extractOne q (activity_names ix) sc' t = Some (m', s', k') \<longrightarrow> s' \<le> s"
  shows "foldl (try_scorer ix q t) b (pre @ sc # post) = (activity_details_map ix m, s)"
proof -
  have "snd (foldl (try_scorer ix q t) b pre) < s"
    using foldl_try_below[OF assms(3) assms(2)] .
  then have "try_scorer ix q t (foldl (try_scorer ix q t) b pre) sc = (activity_details_map ix m, s)"
    using assms(1) by (simp add: try_scorer_Some)
  moreover have "foldl (try_scorer ix q t) (activity_details_map ix m, s) post = (activity_details_map ix m, s)"
    using assms(4) by (intro foldl_try_keep) simp
  ultimately show ?thesis by simp
qed

lemma find_best_match_fuzzy:
  assumes "exact_match ix q (activity_names ix) = None"
    and "partial_match fz ix q t (activity_names ix) = None"
  shows "find_best_match fz ix q t = fuzzy_match fz ix q t"
  using assms by (simp add: find_best_match_def)


lemma snd_try_scorer:
  "snd (try_scorer ix q t b sc) =
     (case extractOne q (activity_names ix) sc t of None \<Rightarrow> snd b | Some (m, s, k) \<Rightarrow> max (snd b) s)"
  by (auto simp: try_scorer_def split: option.splits)

lemma try_scorer_mono:
  assumes "t1 \<le> t2" "snd b2 \<le> snd b1"
  shows "snd (try_scorer ix q t2 b2 sc) \<le> snd (try_scorer ix q t1 b1 sc)"
proof (cases "extractOne q (activity_names ix) sc t2")
  case None
  then have "snd (try_scorer ix q t2 b2 sc) = snd b2" by (simp add: snd_try_scorer)
  moreover have "snd b1 \<le> snd (try_scorer ix q t1 b1 sc)"
    by (auto simp: snd_try_scorer split: option.splits)
  ultimately show ?thesis using assms(2) by simp
next
  case (Some r)
  obtain m s k where r: "r = (m, s, k)" by (cases r)
  from extractOne_mono[OF assms(1) Some[unfolded r]]
  obtain m' s' k' where e: "extractOne q (activity_names ix) sc t1 = Some (m', s', k')" "s \<le> s'"
    by blast
  show ?thesis using Some r e assms(2) by (auto simp: snd_try_scorer max_def)
qed

lemma foldl_try_mono:
  assumes "t1 \<le> t2" "snd b2 \<le> snd b1"
  shows "snd (foldl (try_scorer ix q t2) b2 scs) \<le> snd (foldl (try_scorer ix q t1) b1 scs)"
  using assms(2)
proof (induction scs arbitrary: b1 b2)
  case Nil
  then show ?case by simp
next
  case (Cons sc scs)
  show ?case
    using Cons.IH[OF try_scorer_mono[OF assms(1) Cons.prems]] by simp
qed

lemma fuzzy_match_mono:
  "t1 \<le> t2 \<Longrightarrow> snd (fuzzy_match fz ix q t2) \<le> snd (fuzzy_match fz ix q t1)"
  by (simp add: fuzzy_match_def foldl_try_mono)

lemma try_scorer_shape:
  assumes "match_shape ix b"
  shows "match_shape ix (try_scorer ix q t b sc)"
proof (cases "extractOne q (activity_names ix) sc t")
  case None
  then show ?thesis using assms by (simp add: try_scorer_None)
next
  case (Some r)
  obtain m s k where r: "r = (m, s, k)" by (cases r)
  from extractOne_Some[OF Some[unfolded r]] have m: "m \<in> set (activity_names ix)" by simp
  have nonneg: "0 \<le> snd b" using assms by (auto simp: match_shape_def)
  show ?thesis
  proof (cases "s > snd b")
    case True
    then have "try_scorer ix q t b sc = (activity_details_map ix m, s)"
      using Some r by (simp add: try_scorer_Some)
    moreover have "0 < s" using True nonneg by simp
    ultimately show ?thesis using m by (auto simp: match_shape_def)
  next
    case False
    then show ?thesis using Some r assms by (simp add: try_scorer_Some)
  qed
qed

lemma foldl_try_shape:
  "match_shape ix b \<Longrightarrow> match_shape ix (foldl (try_scorer ix q t) b scs)"
  by (induction scs arbitrary: b) (simp_all add: try_scorer_shape)

lemma fuzzy_match_shape: "match_shape ix (fuzzy_match fz ix q t)"
  unfolding fuzzy_match_def by (rule foldl_try_shape) (simp add: match_shape_def)

lemma exact_match_Some:
  assumes "exact_match ix q ns = Some r"
  shows "\<exists>n\<in>set ns. r = (activity_details_map ix n, 100) \<and> lower q = lower n"
  using assms by (induction ns) (auto split: if_splits)

lemma find_best_match_cases:
  "find_best_match fz ix q t = (None, 0)
   \<or> (\<exists>n\<in>set (activity_names ix). \<exists>s. find_best_match fz ix q t = (activity_details_map ix n, s))"
proof (cases "exact_match ix q (activity_names ix)")
  case (Some r)
  from exact_match_Some[OF Some] show ?thesis using Some
    by (auto simp: find_best_match_def)
next
  case None
  show ?thesis
  proof (cases "partial_match fz ix q t (activity_names ix)")
    case (Some r)
    from partial_match_Some[OF Some] show ?thesis using Some None
      by (auto simp: find_best_match_def)
  next
    case None2: None
    have "find_best_match fz ix q t = fuzzy_match fz ix q t"
      using None None2 by (simp add: find_best_match_def)
    then show ?thesis using fuzzy_match_shape[of ix fz q t]
      by (auto simp: match_shape_def)
  qed
qed

lemma find_best_match_built:
  "find_best_match fz (build_index acts) q t = (None, 0)
   \<or> (\<exists>a\<in>set acts. \<exists>s. find_best_match fz (build_index acts) q t = (Some a, s)
        \<and> activity_details_map (build_index acts) (title a) = Some a)"
proof -
  let ?ix = "build_index acts"
  from find_best_match_cases[of fz ?ix q t]
  show ?thesis
  proof
    assume "find_best_match fz ?ix q t = (None, 0)"
    then show ?thesis by simp
  next
    assume "\<exists>n\<in>set (activity_names ?ix). \<exists>s. find_best_match fz ?ix q t = (activity_details_map ?ix n, s)"
    then obtain n s where n: "n \<in> set (activity_names ?ix)"
      and r: "find_best_match fz ?ix q t = (activity_details_map ?ix n, s)" by blast
    from map_build_index_dom[OF n] obtain a where a: "activity_details_map ?ix n = Some a" by blast
    from map_build_index_Some[OF a] have "a \<in> set acts" "title a = n" by auto
    then show ?thesis using r a by auto
  qed
qed

lemma fst_shape_None:
  assumes "match_shape (build_index acts) b"
  shows "fst b = None \<longleftrightarrow> snd b = 0"
proof -
  from assms consider "b = (None, 0)"
    | n where "n \<in> set (activity_names (build_index acts))"
        "b = (activity_details_map (build_index acts) n, snd b)" "0 < snd b"
    unfolding match_shape_def by blast
  then show ?thesis
  proof cases
    case 1
    then show ?thesis by simp
  next
    case 2
    from map_build_index_dom[OF 2(1)] obtain a where
      "activity_details_map (build_index acts) n = Some a" by blast
    with 2(2) have "fst b = Some a" by (metis fst_conv)
    then show ?thesis using 2(3) by simp
  qed
qed

lemma partial_match_built_Some:
  assumes "partial_match fz (build_index acts) q t (activity_names (build_index acts)) = Some r"
  shows "fst r \<noteq> None"
proof -
  from partial_match_Some[OF assms] obtain n where
    "n \<in> set (activity_names (build_index acts))" "r = (activity_details_map (build_index acts) n, partial_score fz q n)"
    by blast
  then show ?thesis using map_build_index_dom[of n acts] by auto
qed

lemma partial_match_mono:
  assumes "t1 \<le> t2" "partial_match fz ix q t2 ns = Some r"
  shows "partial_match fz ix q t1 ns \<noteq> None"
proof -
  from partial_match_Some[OF assms(2)] obtain n where
    "n \<in> set ns" "contains q n" "t2 \<le> partial_score fz q n" by blast
  then show ?thesis using assms(1) by (auto simp: partial_match_None_iff intro!: bexI[of _ n])
qed

lemma lower_Nil_iff: "lower s = [] \<longleftrightarrow> s = []"
  by (simp add: lower_def)

lemma str_in_Nil: "str_in [] s"
  by (cases s) simp_all

lemma contains_Nil: "contains [] n"
  by (simp add: contains_def lower_def str_in_Nil)


lemma find_best_match_exact:
  assumes "activity_names ix = pre @ n # post"
    and "lower q = lower n"
    and "\<forall>m\<in>set pre. lower q \<noteq> lower m"
  shows "find_best_match fz ix q threshold = (activity_details_map ix n, 100)"
  using assms by (simp add: find_best_match_def exact_match_first)

lemma find_best_match_containment:
  assumes "activity_names ix = pre @ a # post"
    and "\<forall>n\<in>set (activity_names ix). lower q \<noteq> lower n"
    and "contains q a"
    and "threshold \<le> partial_score fz q a"
    and "\<forall>n\<in>set pre. contains q n \<longrightarrow> partial_score fz q n < threshold"
  shows "find_best_match fz ix q threshold = (activity_details_map ix a, partial_score fz q a)"
proof -
  have "exact_match ix q (activity_names ix) = None"
    using assms(2) by (simp add: exact_match_None_iff)
  moreover have "partial_match fz ix q threshold (activity_names ix)
      = Some (activity_details_map ix a, partial_score fz q a)"
    unfolding assms(1) using assms(5,3,4) by (rule partial_match_first)
  ultimately show ?thesis by (simp add: find_best_match_def)
qed

lemmas text_eval = cps_def lower_def lower_cp_def

lemma aufguss_names:
  "activity_names (build_index aufguss_catalog) = [cps ''AUFGUSS Z'', cps ''aufguss x'', cps ''Aufguss y'']"
  by (simp add: names_build_index aufguss_catalog_def)

lemma aufguss_lookup:
  "activity_details_map (build_index aufguss_catalog) (cps ''aufguss x'') = Some \<lparr>title = cps ''aufguss x'', members = 1\<rparr>"
  "activity_details_map (build_index aufguss_catalog) (cps ''Aufguss y'') = Some \<lparr>title = cps ''Aufguss y'', members = 2\<rparr>"
  by (simp_all add: map_build_index aufguss_catalog_def cps_def)

lemma aufguss_no_exact:
  "\<forall>n\<in>set (activity_names (build_index aufguss_catalog)). lower (cps ''Aufguss'') \<noteq> lower n"
  by (simp add: aufguss_names text_eval)

lemma aufguss_contains:
  "contains (cps ''Aufguss'') (cps ''AUFGUSS Z'')"
  "contains (cps ''Aufguss'') (cps ''aufguss x'')"
  "contains (cps ''Aufguss'') (cps ''Aufguss y'')"
  by (simp_all add: contains_def text_eval)

lemma aufguss_scores:
  "partial_score sample_fuzz (cps ''Aufguss'') (cps ''AUFGUSS Z'') = 100 / 7"
  "partial_score sample_fuzz (cps ''Aufguss'') (cps ''aufguss x'') = 600 / 7"
  "partial_score sample_fuzz (cps ''Aufguss'') (cps ''Aufguss y'') = 100"
  by (simp_all add: partial_score_def sample_fuzz_def table_scorer_def cps_def)

lemma aufguss_at_60:
  "find_best_match sample_fuzz (build_index aufguss_catalog) (cps ''Aufguss'') 60
   = (Some \<lparr>title = cps ''aufguss x'', members = 1\<rparr>, 600 / 7)"
proof -
  have "find_best_match sample_fuzz (build_index aufguss_catalog) (cps ''Aufguss'') 60
      = (activity_details_map (build_index aufguss_catalog) (cps ''aufguss x''),
         partial_score sample_fuzz (cps ''Aufguss'') (cps ''aufguss x''))"
    by (rule find_best_match_containment[where pre = "[cps ''AUFGUSS Z'']" and post = "[cps ''Aufguss y'']"])
       (simp_all add: aufguss_names aufguss_no_exact[unfolded aufguss_names] aufguss_contains aufguss_scores)
  then show ?thesis by (simp add: aufguss_lookup aufguss_scores)
qed

lemma aufguss_at_90:
  "find_best_match sample_fuzz (build_index aufguss_catalog) (cps ''Aufguss'') 90
   = (Some \<lparr>title = cps ''Aufguss y'', members = 2\<rparr>, 100)"
proof -
  have "find_best_match sample_fuzz (build_index aufguss_catalog) (cps ''Aufguss'') 90
      = (activity_details_map (build_index aufguss_catalog) (cps ''Aufguss y''),
         partial_score sample_fuzz (cps ''Aufguss'') (cps ''Aufguss y''))"
    by (rule find_best_match_containment[where pre = "[cps ''AUFGUSS Z'', cps ''aufguss x'']" and post = "[]"])
       (simp_all add: aufguss_names aufguss_no_exact[unfolded aufguss_names] aufguss_contains aufguss_scores)
  then show ?thesis by (simp add: aufguss_lookup aufguss_scores)
qed

section \<open>Time lines and days lines\<close>

lemma hour_minute_chars:
  assumes "hour_minute s = Some r"
  shows "\<exists>p. s = p @ r \<and> (\<forall>c\<in>set p. isdigit c \<or> c = 58)"
proof -
  from assms consider a b c d where "s = [a, b, c, d] @ r" "isdigit a" "b = 58" "isdigit c" "isdigit d"
    | a b c d e where "s = [a, b, c, d, e] @ r" "isdigit a" "isdigit b" "c = 58" "isdigit d" "isdigit e"
    by (auto simp: hour_minute_def split: list.splits if_splits)
  then show ?thesis
  proof cases
    case 1
    then show ?thesis by (intro exI[of _ "[a, b, c, d]"]) simp
  next
    case 2
    then show ?thesis by (intro exI[of _ "[a, b, c, d, e]"]) simp
  qed
qed

lemma at_end_chars: "at_end r \<Longrightarrow> \<forall>c\<in>set r. isspace c"
  by (auto simp: at_end_def isspace_def)

lemma time_line_chars:
  assumes "is_time_line l"
  shows "\<forall>c\<in>set l. isdigit c \<or> c = 58 \<or> c = 45 \<or> isspace c"
proof -
  from assms obtain r where r: "hour_minute l = Some r"
    by (auto simp: is_time_line_def split: option.splits)
  from hour_minute_chars[OF r] obtain p where p: "l = p @ r" "\<forall>c\<in>set p. isdigit c \<or> c = 58"
    by blast
  have "\<forall>c\<in>set r. isdigit c \<or> c = 58 \<or> c = 45 \<or> isspace c"
  proof (cases "at_end r")
    case True
    then show ?thesis using at_end_chars by blast
  next
    case False
    with assms r obtain r1 r2 where d: "dropWhile isspace r = 45 # r1"
      and h2: "hour_minute (dropWhile isspace r1) = Some r2" and e2: "at_end r2"
      by (auto simp: is_time_line_def split: option.splits list.splits)
    from hour_minute_chars[OF h2] obtain p2 where
      p2: "dropWhile isspace r1 = p2 @ r2" "\<forall>c\<in>set p2. isdigit c \<or> c = 58" by blast
    have "r = takeWhile isspace r @ 45 # takeWhile isspace r1 @ p2 @ r2"
      using d p2(1) by (metis takeWhile_dropWhile_id)
    moreover have "\<forall>c\<in>set (takeWhile isspace r). isspace c" "\<forall>c\<in>set (takeWhile isspace r1). isspace c"
      by (auto dest: set_takeWhileD)
    ultimately show ?thesis
      using p2(2) at_end_chars[OF e2]
      by (metis (no_types, lifting) Un_iff set_ConsD set_append)
  qed
  with p show ?thesis by auto
qed

lemma lower_cp_fixed: "isdigit c \<or> c = 58 \<or> c = 45 \<or> isspace c \<Longrightarrow> lower_cp c = c"
  by (auto simp: lower_cp_def isdigit_def isspace_def)

lemma lower_time_line: "is_time_line l \<Longrightarrow> lower l = l"
  using time_line_chars[of l] by (simp add: lower_def map_idI lower_cp_fixed)

lemma str_in_head: "str_in (c # t) s \<Longrightarrow> c \<in> set s"
  by (induction s) (auto simp: prefix_def)

lemma day_token_head:
  "tok \<in> set day_tokens \<Longrightarrow> \<exists>c t. tok = c # t \<and> (c = 100 \<or> c = 106 \<or> c = 108 \<or> c = 109 \<or> c = 115 \<or> c = 118)"
  by (auto simp: day_tokens_def cps_def)

lemma time_line_not_days:
  assumes "is_time_line l"
  shows "\<not> is_days_line l"
proof
  assume "is_days_line l"
  then obtain tok where tok: "tok \<in> set day_tokens" "str_in tok (lower l)"
    by (auto simp: is_days_line_def list_ex_iff)
  from day_token_head[OF tok(1)] obtain c t where
    c: "tok = c # t" "c = 100 \<or> c = 106 \<or> c = 108 \<or> c = 109 \<or> c = 115 \<or> c = 118" by blast
  from tok(2) c(1) have "c \<in> set l"
    using str_in_head lower_time_line[OF assms] by force
  with time_line_chars[OF assms] have "isdigit c \<or> c = 58 \<or> c = 45 \<or> isspace c" by blast
  with c(2) show False by (auto simp: isdigit_def isspace_def)
qed

lemma spec_day_token_head:
  "tok \<in> set spec_day_tokens \<Longrightarrow> \<exists>c t. tok = c # t \<and> (c = 100 \<or> c = 106 \<or> c = 108 \<or> c = 109 \<or> c = 115 \<or> c = 118)"
  by (auto simp: spec_day_tokens_def cps_def)

lemma time_line_not_days_spec:
  assumes "is_time_line l"
  shows "\<not> is_days_line_spec l"
proof
  assume "is_days_line_spec l"
  then obtain tok where tok: "tok \<in> set spec_day_tokens" "str_in tok (lower l)"
    by (auto simp: is_days_line_spec_def list_ex_iff)
  from spec_day_token_head[OF tok(1)] obtain c t where
    c: "tok = c # t" "c = 100 \<or> c = 106 \<or> c = 108 \<or> c = 109 \<or> c = 115 \<or> c = 118" by blast
  from tok(2) c(1) have "c \<in> set l"
    using str_in_head lower_time_line[OF assms] by force
  with time_line_chars[OF assms] have "isdigit c \<or> c = 58 \<or> c = 45 \<or> isspace c" by blast
  with c(2) show False by (auto simp: isdigit_def isspace_def)
qed

lemma time_line_first:
  "is_time_line line \<Longrightarrow> classify line = TimeLine \<and> classify_spec line = TimeLine"
  using time_line_not_days[of line] by (simp add: classify_def classify_spec_def)

lemma classify_refines:
  "is_days_line line = is_days_line_spec line \<Longrightarrow> classify line = classify_spec line"
  using time_line_not_days[of line] by (auto simp: classify_def classify_spec_def)

lemma str_in_set: "str_in a s \<Longrightarrow> set a \<subseteq> set s"
proof (induction s)
  case Nil
  then show ?case by simp
next
  case (Cons y ys)
  from Cons.prems have "prefix a (y # ys) \<or> str_in a ys" by simp
  then show ?case
  proof
    assume "prefix a (y # ys)"
    then show ?thesis by (rule set_mono_prefix)
  next
    assume "str_in a ys"
    with Cons.IH show ?thesis by auto
  qed
qed

lemma lower_never_upper: "200 \<notin> set (lower v)" "195 \<notin> set (lower v)" "196 \<notin> set (lower v)"
  by (auto simp: lower_def lower_cp_def split: if_splits)

lemma misencoded_tokens_dead:
  "\<not> str_in (cps ''mar'' @ [200, 8250] @ cps ''i'') (lower v)"
  "\<not> str_in (cps ''s'' @ [195, 162] @ cps ''mb'' @ [196, 402] @ cps ''t'' @ [196, 402]) (lower v)"
  "\<not> str_in (cps ''duminic'' @ [196, 402]) (lower v)"
  using lower_never_upper[of v] by (auto dest!: str_in_set)

lemma step_classify:
  "step st line =
     (case classify line of
        DaysLine \<Rightarrow> st\<lparr>current_days := Some line, current_location := None\<rparr>
      | TimeLine \<Rightarrow> if truthy (current_location st) then emit st line else st
      | LocationLine \<Rightarrow> st\<lparr>current_location := Some line\<rparr>)"
  by (simp add: step_def classify_def)


section \<open>The loop over the lines\<close>

lemma entries_step:
  "entries (step st line) =
     (if is_time_line line \<and> truthy (current_location st)
      then entries st @ [\<lparr>days = or_empty (current_days st),
                           location = or_empty (current_location st), time = line\<rparr>]
      else entries st)"
  using time_line_not_days[of line] by (auto simp: step_def emit_def)









lemma lines_eval:
  "clean_lines sample_text
   = [cps ''Program'', cps ''Luni'', cps ''Sauna'', cps ''18:00 - 19:00'']"
  by (simp add: sample_text_def clean_lines_def strip_def isspace_def cps_def)

lemma drop_program_eval:
  "drop_program [cps ''Program'', cps ''Luni'', cps ''Sauna'', cps ''18:00 - 19:00'']
   = [cps ''Luni'', cps ''Sauna'', cps ''18:00 - 19:00'']"
  by (simp add: drop_program_def lower_def lower_cp_def cps_def)

lemma luni_days: "is_days_line (cps ''Luni'')"
  by (simp add: is_days_line_def day_tokens_def lower_def lower_cp_def cps_def)

lemma sauna_not_days: "\<not> is_days_line (cps ''Sauna'')"
  by (simp add: is_days_line_def day_tokens_def lower_def lower_cp_def cps_def)

lemma sauna_not_time: "\<not> is_time_line (cps ''Sauna'')"
  by (simp add: is_time_line_def hour_minute_def at_end_def isdigit_def isspace_def cps_def)

lemma evening_time: "is_time_line (cps ''18:00 - 19:00'')"
  by (simp add: is_time_line_def hour_minute_def at_end_def isdigit_def isspace_def cps_def)

lemma sample_run:
  "entries (foldl step init_state [cps ''Luni'', cps ''Sauna'', cps ''18:00 - 19:00''])
   = [\<lparr>days = cps ''Luni'', location = cps ''Sauna'', time = cps ''18:00 - 19:00''\<rparr>]"
proof -
  have s1: "step init_state (cps ''Luni'')
      = \<lparr>entries = [], current_days = Some (cps ''Luni''), current_location = None\<rparr>"
    by (simp add: step_def luni_days init_state_def)
  have s2: "step \<lparr>entries = [], current_days = Some (cps ''Luni''), current_location = None\<rparr> (cps ''Sauna'')
      = \<lparr>entries = [], current_days = Some (cps ''Luni''), current_location = Some (cps ''Sauna'')\<rparr>"
    by (simp add: step_def sauna_not_days sauna_not_time)
  have ne: "cps ''Sauna'' \<noteq> []" by (simp add: cps_def)
  have s3: "entries (step \<lparr>entries = [], current_days = Some (cps ''Luni''), current_location = Some (cps ''Sauna'')\<rparr>
              (cps ''18:00 - 19:00''))
      = [\<lparr>days = cps ''Luni'', location = cps ''Sauna'', time = cps ''18:00 - 19:00''\<rparr>]"
    using evening_time ne by (simp add: entries_step truthy_def or_empty_def)
  show ?thesis by (simp add: s1 s2 s3)
qed


section \<open>The matched titles\<close>

lemma matched_iff:
  "n \<in> matched_activity_titles fz ix names \<longleftrightarrow>
   (\<exists>s\<in>set names. \<exists>d. fst (find_best_match fz ix s default_threshold) = Some d \<and> title d = n)"
proof -
  have "n \<in> set (case x of None \<Rightarrow> [] | Some d \<Rightarrow> [title d]) \<longleftrightarrow> (\<exists>d. x = Some d \<and> title d = n)"
    for x :: "'a activity option"
    by (cases x) auto
  then show ?thesis by (simp add: matched_activity_titles_def)
qed

lemma schedule_matched_iff:
  assumes "n \<in> set (activity_names (build_index acts))"
  shows "n \<in> matched_activity_titles fz (build_index acts) names \<longleftrightarrow>
         (\<exists>s\<in>set names. fst (find_best_match fz (build_index acts) s default_threshold)
                          = activity_details_map (build_index acts) n)"
proof -
  let ?ix = "build_index acts"
  from map_build_index_dom[OF assms] obtain a where a: "activity_details_map ?ix n = Some a" by blast
  from map_build_index_Some[OF a] have ta: "title a = n" by simp
  show ?thesis
  proof
    assume "n \<in> matched_activity_titles fz ?ix names"
    then obtain s d where s: "s \<in> set names"
      and d: "fst (find_best_match fz ?ix s default_threshold) = Some d" "title d = n"
      by (auto simp: matched_iff)
    from find_best_match_built[of fz acts s default_threshold] d(1)
    have "activity_details_map ?ix (title d) = Some d" by auto
    with d a have "d = a" by simp
    with s d a show "\<exists>s\<in>set names. fst (find_best_match fz ?ix s default_threshold) = activity_details_map ?ix n"
      by auto
  next
    assume "\<exists>s\<in>set names. fst (find_best_match fz ?ix s default_threshold) = activity_details_map ?ix n"
    then obtain s where "s \<in> set names" "fst (find_best_match fz ?ix s default_threshold) = Some a"
      using a by auto
    then show "n \<in> matched_activity_titles fz ?ix names"
      using ta by (auto simp: matched_iff)
  qed
qed

lemma verbatim_title_matched:
  assumes "n \<in> set (activity_names (build_index acts))"
    and "\<forall>m\<in>set (activity_names (build_index acts)). lower m = lower n \<longrightarrow> m = n"
  shows "fst (find_best_match fz (build_index acts) n t) = activity_details_map (build_index acts) n"
proof -
  let ?ix = "build_index acts"
  have "exact_match ?ix n (activity_names ?ix) \<noteq> None"
    using assms(1) by (auto simp: exact_match_None_iff)
  then obtain r where r: "exact_match ?ix n (activity_names ?ix) = Some r" by auto
  from exact_match_Some[OF r] obtain m where
    m: "m \<in> set (activity_names ?ix)" "r = (activity_details_map ?ix m, 100)" "lower n = lower m"
    by blast
  with assms(2) have "m = n" by auto
  with m r show ?thesis by (simp add: find_best_match_def)
qed

section \<open>Claims about find_best_match\<close>

text \<open>
  Claim C3 (exact stage). When the lower-cased query equals the lower-cased form of a name
  of the ordered sequence, \<open>find_best_match\<close> returns score 100 with the record that the
  map holds for the first such name in catalog order, whatever the scorers and the
  threshold are: the two later loops are not reached. The test is equality of the
  lower-cased strings and nothing else, so the exact loop finds nothing exactly when no
  name has the lower-cased form of the query.
\<close>

theorem exact_stage_first_title:
  assumes "activity_names ix = pre @ n # post"
    and "lower q = lower n"
    and "\<forall>m\<in>set pre. lower q \<noteq> lower m"
  shows "find_best_match fz ix q threshold = (activity_details_map ix n, 100)
       \<and> (exact_match ix q' (activity_names ix) = None
            \<longleftrightarrow> (\<forall>m\<in>set (activity_names ix). lower q' \<noteq> lower m))"
  using find_best_match_exact[OF assms] exact_match_None_iff by blast

lemma sauna_names:
  "activity_names (build_index sauna_catalog)
   = [cps ''Aufguss y'', cps ''Salt Sauna'', cps ''Salt Sauna'']"
  by (simp add: names_build_index sauna_catalog_def)

lemma sauna_lookup:
  "activity_details_map (build_index sauna_catalog) (cps ''Salt Sauna'')
   = Some \<lparr>title = cps ''Salt Sauna'', members = 2\<rparr>"
  "activity_details_map (build_index sauna_catalog) (cps ''Aufguss y'')
   = Some \<lparr>title = cps ''Aufguss y'', members = 0\<rparr>"
  by (simp_all add: map_build_index sauna_catalog_def cps_def)

theorem exact_stage_first_title_witness:
  "find_best_match sample_fuzz (build_index sauna_catalog) (cps ''salt sauna'') 60
     = (Some \<lparr>title = cps ''Salt Sauna'', members = 2\<rparr>, 100)
   \<and> exact_match (build_index sauna_catalog) (cps ''Salt  Sauna'')
       (activity_names (build_index sauna_catalog)) = None"
proof -
  have h1: "activity_names (build_index sauna_catalog)
      = [cps ''Aufguss y''] @ cps ''Salt Sauna'' # [cps ''Salt Sauna'']"
    by (simp add: sauna_names)
  have h2: "lower (cps ''salt sauna'') = lower (cps ''Salt Sauna'')"
    by (simp add: text_eval)
  have h3: "\<forall>m\<in>set [cps ''Aufguss y'']. lower (cps ''salt sauna'') \<noteq> lower m"
    by (simp add: text_eval)
  have h4: "\<forall>m\<in>set (activity_names (build_index sauna_catalog)).
      lower (cps ''Salt  Sauna'') \<noteq> lower m"
    by (simp add: sauna_names text_eval)
  from exact_stage_first_title[OF h1 h2 h3, of sample_fuzz 60 "cps ''Salt  Sauna''"] h4
  show ?thesis by (simp add: sauna_lookup)
qed

text \<open>
  Claim C1 (containment stage, greedy and order-dependent). Let the query have no
  case-insensitive exact match among the names, and let \<open>a\<close> be a name such that the
  lower-cased query occurs in the lower-cased \<open>a\<close> or the other way round, with a score
  (the largest of the whole-string, the best-alignment and the token-sort ratio) at or
  above the threshold, while every such candidate before \<open>a\<close> in catalog order scores
  below the threshold. Then \<open>find_best_match\<close> returns the record of \<open>a\<close> with the
  score of \<open>a\<close>, whatever follows \<open>a\<close> in the catalog: a later candidate with a higher
  score does not change the result, and the earlier candidates below the threshold are
  passed over.
\<close>

theorem containment_first_wins:
  assumes "activity_names ix = pre @ a # post"
    and "\<forall>n\<in>set (activity_names ix). lower q \<noteq> lower n"
    and "contains q a"
    and "threshold \<le> partial_score fz q a"
    and "\<forall>n\<in>set pre. contains q n \<longrightarrow> partial_score fz q n < threshold"
  shows "find_best_match fz ix q threshold = (activity_details_map ix a, partial_score fz q a)"
  using assms by (rule find_best_match_containment)

theorem containment_first_wins_witness:
  "find_best_match sample_fuzz (build_index aufguss_catalog) (cps ''Aufguss'') 60
     = (Some \<lparr>title = cps ''aufguss x'', members = 1\<rparr>, 600 / 7)
   \<and> contains (cps ''Aufguss'') (cps ''Aufguss y'')
   \<and> partial_score sample_fuzz (cps ''Aufguss'') (cps ''Aufguss y'') = 100
   \<and> contains (cps ''Aufguss'') (cps ''AUFGUSS Z'')
   \<and> partial_score sample_fuzz (cps ''Aufguss'') (cps ''AUFGUSS Z'') = 100 / 7"
proof -
  have h1: "activity_names (build_index aufguss_catalog)
      = [cps ''AUFGUSS Z''] @ cps ''aufguss x'' # [cps ''Aufguss y'']"
    by (simp add: aufguss_names)
  have h4: "60 \<le> partial_score sample_fuzz (cps ''Aufguss'') (cps ''aufguss x'')"
    by (simp add: aufguss_scores)
  have h5: "\<forall>n\<in>set [cps ''AUFGUSS Z'']. contains (cps ''Aufguss'') n
      \<longrightarrow> partial_score sample_fuzz (cps ''Aufguss'') n < 60"
    by (simp add: aufguss_scores)
  from containment_first_wins[OF h1 aufguss_no_exact aufguss_contains(2) h4 h5]
  show ?thesis by (simp add: aufguss_lookup aufguss_scores aufguss_contains)
qed

text \<open>
  Claim C4 (best-effort stage). When neither the exact nor the containment loop returns,
  the four scorers are tried in the fixed order whole-string, best-alignment, token-sort,
  token-set. Each search looks at the whole sequence of names: what it returns is a name
  of the sequence with its score, at or above the threshold and not below the score of
  any other name, and it returns nothing exactly when every name scores below the
  threshold. The overall best is replaced only by a strictly greater score: a scorer whose
  best score is positive, strictly above the best of every scorer before it and not below
  the best of any scorer after it, gives the result, so that of two scorers with equal
  best scores the first is kept. When no scorer finds a candidate the result is no record
  with score 0.
\<close>

theorem best_effort_contract:
  assumes "exact_match ix q (activity_names ix) = None"
    and "partial_match fz ix q t (activity_names ix) = None"
  shows "scorers fz = [ratio fz, partial_ratio fz, token_sort_ratio fz, token_set_ratio fz]
    \<and> (extractOne q (activity_names ix) sc0 t = Some (m0, s0, k0) \<longrightarrow>
          m0 \<in> set (activity_names ix) \<and> s0 = sc0 q m0 \<and> t \<le> s0
          \<and> (\<forall>n\<in>set (activity_names ix). sc0 q n \<le> s0))
    \<and> (extractOne q (activity_names ix) sc0 t = None \<longleftrightarrow>
          (\<forall>n\<in>set (activity_names ix). sc0 q n < t))
    \<and> (scorers fz = pre @ sc # post
          \<and> extractOne q (activity_names ix) sc t = Some (m, s, k) \<and> 0 < s
          \<and> (\<forall>sc'\<in>set pre. \<forall>m' s' k'.
                extractOne q (activity_names ix) sc' t = Some (m', s', k') \<longrightarrow> s' < s)
          \<and> (\<forall>sc'\<in>set post. \<forall>m' s' k'.
                extractOne q (activity_names ix) sc' t = Some (m', s', k') \<longrightarrow> s' \<le> s)
          \<longrightarrow> find_best_match fz ix q t = (activity_details_map ix m, s))
    \<and> ((\<forall>sc\<in>set (scorers fz). extractOne q (activity_names ix) sc t = None)
          \<longrightarrow> find_best_match fz ix q t = (None, 0))"
proof (intro conjI impI)
  show "scorers fz = [ratio fz, partial_ratio fz, token_sort_ratio fz, token_set_ratio fz]"
    by (simp add: scorers_def)
next
  assume "extractOne q (activity_names ix) sc0 t = Some (m0, s0, k0)"
  from extractOne_Some[OF this]
  show "m0 \<in> set (activity_names ix)" "s0 = sc0 q m0" "t \<le> s0"
    "\<forall>n\<in>set (activity_names ix). sc0 q n \<le> s0" by auto
next
  show "extractOne q (activity_names ix) sc0 t = None \<longleftrightarrow>
          (\<forall>n\<in>set (activity_names ix). sc0 q n < t)"
    by (rule extractOne_None_iff)
next
  assume h: "scorers fz = pre @ sc # post
          \<and> extractOne q (activity_names ix) sc t = Some (m, s, k) \<and> 0 < s
          \<and> (\<forall>sc'\<in>set pre. \<forall>m' s' k'.
                extractOne q (activity_names ix) sc' t = Some (m', s', k') \<longrightarrow> s' < s)
          \<and> (\<forall>sc'\<in>set post. \<forall>m' s' k'.
                extractOne q (activity_names ix) sc' t = Some (m', s', k') \<longrightarrow> s' \<le> s)"
  have "foldl (try_scorer ix q t) (None, 0) (pre @ sc # post) = (activity_details_map ix m, s)"
    using h by (intro foldl_try_winner[where k = k]) simp_all
  then show "find_best_match fz ix q t = (activity_details_map ix m, s)"
    using h by (simp add: find_best_match_fuzzy[OF assms] fuzzy_match_def)
next
  assume "\<forall>sc\<in>set (scorers fz). extractOne q (activity_names ix) sc t = None"
  then have "foldl (try_scorer ix q t) (None, 0) (scorers fz) = (None, 0)"
    by (intro foldl_try_keep) simp
  then show "find_best_match fz ix q t = (None, 0)"
    by (simp add: find_best_match_fuzzy[OF assms] fuzzy_match_def)
qed

lemma ritual_names:
  "activity_names (build_index ritual_catalog) = [cps ''Banja Ritual'', cps ''Ritual Banja'']"
  by (simp add: names_build_index ritual_catalog_def)

lemma ritual_lookup:
  "activity_details_map (build_index ritual_catalog) (cps ''Banja Ritual'')
   = Some \<lparr>title = cps ''Banja Ritual'', members = 0\<rparr>"
  by (simp add: map_build_index ritual_catalog_def cps_def)

lemma ritual_extract:
  "extractOne (cps ''Banja Rital'') (activity_names (build_index ritual_catalog))
     (ratio sample_fuzz) 60 = Some (cps ''Banja Ritual'', 80, 0)"
  "extractOne (cps ''Banja Rital'') (activity_names (build_index ritual_catalog))
     (partial_ratio sample_fuzz) 60 = Some (cps ''Ritual Banja'', 80, 1)"
  "extractOne (cps ''Banja Rital'') (activity_names (build_index ritual_catalog))
     (token_sort_ratio sample_fuzz) 60 = None"
  "extractOne (cps ''Banja Rital'') (activity_names (build_index ritual_catalog))
     (token_set_ratio sample_fuzz) 60 = Some (cps ''Banja Ritual'', 80, 0)"
  by (simp_all add: ritual_names extractOne_def sample_fuzz_def table_scorer_def cps_def)

theorem best_effort_contract_witness:
  "find_best_match sample_fuzz (build_index ritual_catalog) (cps ''Banja Rital'') 60
     = (Some \<lparr>title = cps ''Banja Ritual'', members = 0\<rparr>, 80)
   \<and> extractOne (cps ''Banja Rital'') (activity_names (build_index ritual_catalog))
        (ratio sample_fuzz) 60 = Some (cps ''Banja Ritual'', 80, 0)
   \<and> extractOne (cps ''Banja Rital'') (activity_names (build_index ritual_catalog))
        (partial_ratio sample_fuzz) 60 = Some (cps ''Ritual Banja'', 80, 1)"
proof -
  let ?ix = "build_index ritual_catalog"
  let ?q = "cps ''Banja Rital''"
  have h1: "exact_match ?ix ?q (activity_names ?ix) = None"
    by (simp add: ritual_names text_eval)
  have h2: "partial_match sample_fuzz ?ix ?q 60 (activity_names ?ix) = None"
    by (simp add: ritual_names contains_def text_eval)
  have sp: "scorers sample_fuzz
      = [] @ ratio sample_fuzz # [partial_ratio sample_fuzz, token_sort_ratio sample_fuzz,
                                    token_set_ratio sample_fuzz]"
    by (simp add: scorers_def)
  have post: "\<forall>sc'\<in>set [partial_ratio sample_fuzz, token_sort_ratio sample_fuzz,
                          token_set_ratio sample_fuzz]. \<forall>m' s' k'.
      extractOne ?q (activity_names ?ix) sc' 60 = Some (m', s', k') \<longrightarrow> s' \<le> 80"
    by (simp add: ritual_extract)
  from best_effort_contract[OF h1 h2, where pre = "[]" and sc = "ratio sample_fuzz"
      and post = "[partial_ratio sample_fuzz, token_sort_ratio sample_fuzz, token_set_ratio sample_fuzz]"
      and m = "cps ''Banja Ritual''" and s = 80 and k = 0]
  have "find_best_match sample_fuzz ?ix ?q 60
      = (activity_details_map ?ix (cps ''Banja Ritual''), 80)"
    using sp post ritual_extract(1) by simp
  then show ?thesis by (simp add: ritual_lookup ritual_extract)
qed

text \<open>
  Claim C2 (threshold monotonicity), as stated, fails: lowering the threshold can decrease
  the score of the returned match. With the sample scores the candidate \<open>aufguss x\<close>
  scores \<open>600/7\<close> and the later candidate \<open>Aufguss y\<close> scores 100; at threshold 90 the
  containment loop passes over the first and returns the second with 100, at threshold 60
  it returns the first with \<open>600/7\<close>.
\<close>

theorem threshold_score_drop:
  "(60::rat) < 90
   \<and> find_best_match sample_fuzz (build_index aufguss_catalog) (cps ''Aufguss'') 90
       = (Some \<lparr>title = cps ''Aufguss y'', members = 2\<rparr>, 100)
   \<and> find_best_match sample_fuzz (build_index aufguss_catalog) (cps ''Aufguss'') 60
       = (Some \<lparr>title = cps ''aufguss x'', members = 1\<rparr>, 600 / 7)
   \<and> (600 / 7 :: rat) < 100"
  by (simp add: aufguss_at_60 aufguss_at_90)

text \<open>
  Claim C2, amended. For thresholds \<open>t1 \<le> t2\<close> and an index loaded from a catalog: a
  match at \<open>t2\<close> is a match at \<open>t1\<close>, so raising the threshold can turn a match into a
  non-match and never a non-match into a match; and when the containment loop gives the
  same answer at both thresholds, the score at \<open>t1\<close> is not below the score at \<open>t2\<close>.
\<close>

theorem threshold_monotone:
  assumes "t1 \<le> t2"
  shows "(fst (find_best_match fz (build_index acts) q t2) \<noteq> None
            \<longrightarrow> fst (find_best_match fz (build_index acts) q t1) \<noteq> None)
       \<and> (partial_match fz (build_index acts) q t1 (activity_names (build_index acts))
            = partial_match fz (build_index acts) q t2 (activity_names (build_index acts))
            \<longrightarrow> snd (find_best_match fz (build_index acts) q t2)
                 \<le> snd (find_best_match fz (build_index acts) q t1))"
proof -
  let ?ix = "build_index acts"
  let ?ns = "activity_names ?ix"
  show ?thesis
  proof (cases "exact_match ?ix q ?ns")
    case (Some r)
    then show ?thesis by (simp add: find_best_match_def)
  next
    case None
    have score: "snd (find_best_match fz ?ix q t2) \<le> snd (find_best_match fz ?ix q t1)"
      if "partial_match fz ?ix q t1 ?ns = partial_match fz ?ix q t2 ?ns"
    proof (cases "partial_match fz ?ix q t2 ?ns")
      case None2: None
      then show ?thesis using that None fuzzy_match_mono[OF assms]
        by (simp add: find_best_match_def)
    next
      case (Some r)
      then show ?thesis using that None by (simp add: find_best_match_def)
    qed
    have match: "fst (find_best_match fz ?ix q t1) \<noteq> None"
      if m2: "fst (find_best_match fz ?ix q t2) \<noteq> None"
    proof (cases "partial_match fz ?ix q t1 ?ns")
      case (Some r1)
      from partial_match_built_Some[OF Some] show ?thesis
        using None Some by (simp add: find_best_match_def)
    next
      case None1: None
      have None2: "partial_match fz ?ix q t2 ?ns = None"
        using partial_match_mono[OF assms, of fz ?ix q ?ns] None1
        by (cases "partial_match fz ?ix q t2 ?ns") auto
      have r1: "find_best_match fz ?ix q t1 = fuzzy_match fz ?ix q t1"
        using None None1 by (simp add: find_best_match_def)
      have r2: "find_best_match fz ?ix q t2 = fuzzy_match fz ?ix q t2"
        using None None2 by (simp add: find_best_match_def)
      have s2: "snd (fuzzy_match fz ?ix q t2) \<noteq> 0"
        using m2 r2 fst_shape_None[of acts "fuzzy_match fz ?ix q t2"] fuzzy_match_shape[of ?ix fz q t2]
        by simp
      have "0 \<le> snd (fuzzy_match fz ?ix q t2)"
        using fuzzy_match_shape[of ?ix fz q t2] by (auto simp: match_shape_def)
      with s2 have "0 < snd (fuzzy_match fz ?ix q t2)" by simp
      with fuzzy_match_mono[OF assms, of fz ?ix q] have "snd (fuzzy_match fz ?ix q t1) \<noteq> 0"
        by simp
      then show ?thesis
        using r1 fst_shape_None[of acts "fuzzy_match fz ?ix q t1"] fuzzy_match_shape[of ?ix fz q t1]
        by simp
    qed
    show ?thesis using score match by blast
  qed
qed

lemma aufguss_partial_60:
  "partial_match sample_fuzz (build_index aufguss_catalog) (cps ''Aufguss'') 60
     (activity_names (build_index aufguss_catalog))
   = Some (Some \<lparr>title = cps ''aufguss x'', members = 1\<rparr>, 600 / 7)"
proof -
  have "partial_match sample_fuzz (build_index aufguss_catalog) (cps ''Aufguss'') 60
      ([cps ''AUFGUSS Z''] @ cps ''aufguss x'' # [cps ''Aufguss y''])
    = Some (activity_details_map (build_index aufguss_catalog) (cps ''aufguss x''),
            partial_score sample_fuzz (cps ''Aufguss'') (cps ''aufguss x''))"
    by (rule partial_match_first) (simp_all add: aufguss_scores aufguss_contains)
  then show ?thesis by (simp add: aufguss_names aufguss_lookup aufguss_scores)
qed

lemma aufguss_partial_80:
  "partial_match sample_fuzz (build_index aufguss_catalog) (cps ''Aufguss'') 80
     (activity_names (build_index aufguss_catalog))
   = Some (Some \<lparr>title = cps ''aufguss x'', members = 1\<rparr>, 600 / 7)"
proof -
  have "partial_match sample_fuzz (build_index aufguss_catalog) (cps ''Aufguss'') 80
      ([cps ''AUFGUSS Z''] @ cps ''aufguss x'' # [cps ''Aufguss y''])
    = Some (activity_details_map (build_index aufguss_catalog) (cps ''aufguss x''),
            partial_score sample_fuzz (cps ''Aufguss'') (cps ''aufguss x''))"
    by (rule partial_match_first) (simp_all add: aufguss_scores aufguss_contains)
  then show ?thesis by (simp add: aufguss_names aufguss_lookup aufguss_scores)
qed

lemma aufguss_at_80:
  "find_best_match sample_fuzz (build_index aufguss_catalog) (cps ''Aufguss'') 80
   = (Some \<lparr>title = cps ''aufguss x'', members = 1\<rparr>, 600 / 7)"
proof -
  have "exact_match (build_index aufguss_catalog) (cps ''Aufguss'')
      (activity_names (build_index aufguss_catalog)) = None"
    using aufguss_no_exact by (simp add: exact_match_None_iff)
  then show ?thesis by (simp add: find_best_match_def aufguss_partial_80)
qed

theorem threshold_monotone_witness:
  "(60::rat) \<le> 80
   \<and> fst (find_best_match sample_fuzz (build_index aufguss_catalog) (cps ''Aufguss'') 80) \<noteq> None
   \<and> fst (find_best_match sample_fuzz (build_index aufguss_catalog) (cps ''Aufguss'') 60) \<noteq> None
   \<and> partial_match sample_fuzz (build_index aufguss_catalog) (cps ''Aufguss'') 60
        (activity_names (build_index aufguss_catalog))
      = partial_match sample_fuzz (build_index aufguss_catalog) (cps ''Aufguss'') 80
        (activity_names (build_index aufguss_catalog))
   \<and> snd (find_best_match sample_fuzz (build_index aufguss_catalog) (cps ''Aufguss'') 80)
      \<le> snd (find_best_match sample_fuzz (build_index aufguss_catalog) (cps ''Aufguss'') 60)"
proof -
  have h: "(60::rat) \<le> 80" by simp
  have m: "fst (find_best_match sample_fuzz (build_index aufguss_catalog) (cps ''Aufguss'') 80) \<noteq> None"
    by (simp add: aufguss_at_80)
  have p: "partial_match sample_fuzz (build_index aufguss_catalog) (cps ''Aufguss'') 60
        (activity_names (build_index aufguss_catalog))
      = partial_match sample_fuzz (build_index aufguss_catalog) (cps ''Aufguss'') 80
        (activity_names (build_index aufguss_catalog))"
    by (simp only: aufguss_partial_60 aufguss_partial_80)
  from threshold_monotone[OF h, of sample_fuzz aufguss_catalog "cps ''Aufguss''"] m p h
  show ?thesis by blast
qed

text \<open>
  Claim C9 (no failure; the empty query). On an index loaded from a catalog,
  \<open>find_best_match\<close> returns either a record of the catalog with a score, or no record
  with score 0. In particular, when every title is non-empty and the scorers rate the
  empty query 0 against a non-empty title (as the library does), the empty query at the
  default threshold 60 gets no record and score 0, although it is contained in every
  title.
\<close>

theorem resolve_total:
  shows "(find_best_match fz (build_index acts) q t = (None, 0)
           \<or> (\<exists>a\<in>set acts. \<exists>s. find_best_match fz (build_index acts) q t = (Some a, s)))
       \<and> ((\<forall>a\<in>set acts. title a \<noteq> [])
            \<and> (\<forall>sc\<in>set (scorers fz). \<forall>n. n \<noteq> [] \<longrightarrow> sc [] n = 0)
           \<longrightarrow> find_best_match fz (build_index acts) [] default_threshold = (None, 0)
               \<and> (\<forall>a\<in>set acts. contains [] (title a)))"
proof (intro conjI impI)
  show "find_best_match fz (build_index acts) q t = (None, 0)
           \<or> (\<exists>a\<in>set acts. \<exists>s. find_best_match fz (build_index acts) q t = (Some a, s))"
    using find_best_match_built[of fz acts q t] by blast
next
  let ?ix = "build_index acts"
  assume h: "(\<forall>a\<in>set acts. title a \<noteq> [])
            \<and> (\<forall>sc\<in>set (scorers fz). \<forall>n. n \<noteq> [] \<longrightarrow> sc [] n = 0)"
  have ne: "\<forall>n\<in>set (activity_names ?ix). n \<noteq> []"
    using h by (auto simp: names_build_index)
  have ex: "exact_match ?ix [] (activity_names ?ix) = None"
    using ne by (auto simp: exact_match_None_iff lower_def)
  have sc0: "ratio fz [] n = 0 \<and> partial_ratio fz [] n = 0 \<and> token_sort_ratio fz [] n = 0"
    if "n \<noteq> []" for n
    using h that by (simp add: scorers_def)
  have pa: "partial_match fz ?ix [] default_threshold (activity_names ?ix) = None"
    using ne sc0 by (auto simp: partial_match_None_iff partial_score_def default_threshold_def)
  have "\<forall>sc\<in>set (scorers fz). extractOne [] (activity_names ?ix) sc default_threshold = None"
    using h ne by (auto simp: extractOne_None_iff default_threshold_def)
  then have "foldl (try_scorer ?ix [] default_threshold) (None, 0) (scorers fz) = (None, 0)"
    by (intro foldl_try_keep) simp
  then show "find_best_match fz ?ix [] default_threshold = (None, 0)"
    using ex pa by (simp add: find_best_match_def fuzzy_match_def)
next
  show "\<forall>a\<in>set acts. contains [] (title a)" by (simp add: contains_Nil)
qed

theorem resolve_total_witness:
  "find_best_match sample_fuzz (build_index sauna_catalog) [] default_threshold = (None, 0)
   \<and> contains [] (cps ''Salt Sauna'')"
proof -
  have h1: "\<forall>a\<in>set sauna_catalog. title a \<noteq> []"
    by (simp add: sauna_catalog_def cps_def)
  have h2: "\<forall>sc\<in>set (scorers sample_fuzz). \<forall>n. n \<noteq> [] \<longrightarrow> sc [] n = 0"
    by (simp add: scorers_def sample_fuzz_def table_scorer_def)
  have "\<lparr>title = cps ''Salt Sauna'', members = 1\<rparr> \<in> set sauna_catalog"
    by (simp add: sauna_catalog_def)
  with resolve_total[of sample_fuzz sauna_catalog "[]" default_threshold] h1 h2
  show ?thesis by force
qed

lemma shouting_names:
  "activity_names (build_index shouting_catalog)
   = [cps ''SALT SAUNA'', cps ''Salt Sauna'', cps ''Salt Sauna'']"
  by (simp add: names_build_index shouting_catalog_def)

lemma shouting_lookup:
  "activity_details_map (build_index shouting_catalog) (cps ''SALT SAUNA'')
   = Some \<lparr>title = cps ''SALT SAUNA'', members = 0\<rparr>"
  by (simp add: map_build_index shouting_catalog_def cps_def)

text \<open>
  Claim C10 (duplicate titles), as stated, fails: the records 1 and 2 of the sample catalog
  share the title \<open>Salt Sauna\<close>, the query \<open>salt sauna\<close> equals it up to case, and the
  result is record 0, whose title \<open>SALT SAUNA\<close> is the first name that equals the query
  up to case.
\<close>

theorem duplicate_title_other_spelling:
  "title (shouting_catalog ! 1) = title (shouting_catalog ! 2)
   \<and> lower (cps ''salt sauna'') = lower (title (shouting_catalog ! 2))
   \<and> find_best_match sample_fuzz (build_index shouting_catalog) (cps ''salt sauna'') 60
       = (Some \<lparr>title = cps ''SALT SAUNA'', members = 0\<rparr>, 100)
   \<and> find_best_match sample_fuzz (build_index shouting_catalog) (cps ''salt sauna'') 60
       \<noteq> (Some (shouting_catalog ! 2), 100)"
proof -
  have "find_best_match sample_fuzz (build_index shouting_catalog) (cps ''salt sauna'') 60
      = (activity_details_map (build_index shouting_catalog) (cps ''SALT SAUNA''), 100)"
    by (rule find_best_match_exact[where pre = "[]" and post = "[cps ''Salt Sauna'', cps ''Salt Sauna'']"])
       (simp_all add: shouting_names text_eval)
  then have r: "find_best_match sample_fuzz (build_index shouting_catalog) (cps ''salt sauna'') 60
      = (Some \<lparr>title = cps ''SALT SAUNA'', members = 0\<rparr>, 100)"
    by (simp only: shouting_lookup)
  have n1: "shouting_catalog ! 1 = \<lparr>title = cps ''Salt Sauna'', members = 1\<rparr>"
    by (simp add: shouting_catalog_def)
  have n2: "shouting_catalog ! 2 = \<lparr>title = cps ''Salt Sauna'', members = 2\<rparr>"
    by (simp add: shouting_catalog_def)
  have l: "lower (cps ''salt sauna'') = lower (cps ''Salt Sauna'')"
    by (simp add: text_eval)
  show ?thesis unfolding r n1 n2 using l by simp
qed

text \<open>
  Claim C10, amended. The ordered sequence keeps every title, duplicates included, and the
  map holds for a title the last record of the catalog that carries it. When that title
  is the first name in catalog order that equals the query up to case, \<open>find_best_match\<close>
  returns that last record with score 100, and so never an earlier duplicate.
\<close>

theorem duplicate_title_later_record:
  assumes "acts = before @ a # after"
    and "\<forall>b\<in>set after. title b \<noteq> title a"
    and "map title acts = pre @ title a # post"
    and "\<forall>m\<in>set pre. lower q \<noteq> lower m"
    and "lower q = lower (title a)"
  shows "activity_names (build_index acts) = map title acts
       \<and> activity_details_map (build_index acts) (title a) = Some a
       \<and> find_best_match fz (build_index acts) q threshold = (Some a, 100)"
proof -
  have m: "activity_details_map (build_index acts) (title a) = Some a"
    using assms(1,2) by (rule map_build_index_last)
  have "exact_match (build_index acts) q (pre @ title a # post)
      = Some (activity_details_map (build_index acts) (title a), 100)"
    using assms(4,5) by (rule exact_match_first)
  then show ?thesis using m assms(3)
    by (simp add: find_best_match_def names_build_index)
qed

theorem duplicate_title_later_record_witness:
  "find_best_match sample_fuzz (build_index sauna_catalog) (cps ''SALT SAUNA'') 60
     = (Some \<lparr>title = cps ''Salt Sauna'', members = 2\<rparr>, 100)
   \<and> activity_names (build_index sauna_catalog)
     = [cps ''Aufguss y'', cps ''Salt Sauna'', cps ''Salt Sauna'']"
proof -
  let ?a = "\<lparr>title = cps ''Salt Sauna'', members = 2::nat\<rparr>"
  have h1: "sauna_catalog
      = [\<lparr>title = cps ''Aufguss y'', members = 0\<rparr>, \<lparr>title = cps ''Salt Sauna'', members = 1\<rparr>]
        @ ?a # []"
    by (simp add: sauna_catalog_def)
  have h2: "\<forall>b\<in>set []. title b \<noteq> title ?a" by simp
  have h3: "map title sauna_catalog = [cps ''Aufguss y''] @ title ?a # [cps ''Salt Sauna'']"
    by (simp add: sauna_catalog_def)
  have h4: "\<forall>m\<in>set [cps ''Aufguss y'']. lower (cps ''SALT SAUNA'') \<noteq> lower m"
    by (simp add: text_eval)
  have h5: "lower (cps ''SALT SAUNA'') = lower (title ?a)"
    by (simp add: text_eval)
  from duplicate_title_later_record[OF h1 h2 h3 h4 h5, of sample_fuzz 60]
  show ?thesis by (simp add: sauna_catalog_def)
qed

section \<open>Claims about parse_schedule_program\<close>

lemma marti_lower: "lower marti_line = cps ''mar'' @ [539] @ cps ''i''"
  by (simp add: marti_line_def text_eval)

lemma marti_not_days: "\<not> is_days_line marti_line"
  by (simp add: is_days_line_def marti_lower day_tokens_def cps_def)

lemma marti_days_spec: "is_days_line_spec marti_line"
  by (simp add: is_days_line_spec_def marti_lower spec_day_tokens_def cps_def)

lemma marti_not_time: "\<not> is_time_line marti_line"
  by (simp add: is_time_line_def hour_minute_def marti_line_def cps_def isdigit_def)

lemma marti_lines:
  "clean_lines marti_text = [marti_line, cps ''Sauna'', cps ''18:00 - 19:00'']"
  by (simp add: marti_text_def marti_line_def clean_lines_def strip_def isspace_def cps_def)

lemma marti_run:
  "entries (foldl step init_state [marti_line, cps ''Sauna'', cps ''18:00 - 19:00''])
   = [\<lparr>days = [], location = cps ''Sauna'', time = cps ''18:00 - 19:00''\<rparr>]"
proof -
  have s1: "step init_state marti_line
      = \<lparr>entries = [], current_days = None, current_location = Some marti_line\<rparr>"
    by (simp add: step_def marti_not_days marti_not_time init_state_def)
  have s2: "step \<lparr>entries = [], current_days = None, current_location = Some marti_line\<rparr> (cps ''Sauna'')
      = \<lparr>entries = [], current_days = None, current_location = Some (cps ''Sauna'')\<rparr>"
    by (simp add: step_def sauna_not_days sauna_not_time)
  have ne: "cps ''Sauna'' \<noteq> []" by (simp add: cps_def)
  have s3: "entries (step \<lparr>entries = [], current_days = None, current_location = Some (cps ''Sauna'')\<rparr>
              (cps ''18:00 - 19:00''))
      = [\<lparr>days = [], location = cps ''Sauna'', time = cps ''18:00 - 19:00''\<rparr>]"
    using evening_time ne by (simp add: entries_step truthy_def or_empty_def)
  show ?thesis by (simp add: s1 s2 s3)
qed

text \<open>
  Claim C5 (line classifier), a defect of the source. The claim takes for a days line any
  line with a weekday name, the diacritic variants included. The three diacritic tokens
  of the source are mis-encoded and hold the upper-case letters \<open>U+00C8\<close>, \<open>U+00C3\<close> and
  \<open>U+00C4\<close>, which no lower-cased line contains. So the line \<open>Mar\<close>, \<open>U+021B\<close>, \<open>i\<close> is no
  days line for the source and takes the location branch, where the classifier of the
  specification makes it a days line; and the text of that line, \<open>Sauna\<close> and
  \<open>18:00 - 19:00\<close> parses to one row whose days are empty.
\<close>

theorem diacritic_days_line_missed:
  "\<not> is_days_line marti_line
   \<and> \<not> is_time_line marti_line
   \<and> classify marti_line = LocationLine
   \<and> classify_spec marti_line = DaysLine
   \<and> step init_state marti_line = init_state\<lparr>current_location := Some marti_line\<rparr>
   \<and> parse_schedule_program marti_text None
       = [\<lparr>days = [], location = cps ''Sauna'', time = cps ''18:00 - 19:00''\<rparr>]"
proof (intro conjI)
  show "\<not> is_days_line marti_line" by (rule marti_not_days)
  show "\<not> is_time_line marti_line" by (rule marti_not_time)
  show "classify marti_line = LocationLine"
    by (simp add: classify_def marti_not_days marti_not_time)
  show "classify_spec marti_line = DaysLine"
    by (simp add: classify_spec_def marti_days_spec marti_not_time)
  show "step init_state marti_line = init_state\<lparr>current_location := Some marti_line\<rparr>"
    by (simp add: step_def marti_not_days marti_not_time)
  have ne: "marti_text \<noteq> []"
    by (simp add: marti_text_def marti_line_def cps_def)
  have dp: "drop_program [marti_line, cps ''Sauna'', cps ''18:00 - 19:00'']
      = [marti_line, cps ''Sauna'', cps ''18:00 - 19:00'']"
    by (simp add: drop_program_def marti_lower cps_def)
  have dt: "drop_title None [marti_line, cps ''Sauna'', cps ''18:00 - 19:00'']
      = [marti_line, cps ''Sauna'', cps ''18:00 - 19:00'']"
    by (simp add: drop_title_def truthy_def)
  show "parse_schedule_program marti_text None
      = [\<lparr>days = [], location = cps ''Sauna'', time = cps ''18:00 - 19:00''\<rparr>]"
    unfolding parse_schedule_program_def Let_def marti_lines dp dt marti_run
    using ne by (simp add: marti_line_def cps_def)
qed



text \<open>
  Claim C7 (concrete parses). The empty text parses to the empty list. The four lines
  \<open>Program\<close>, \<open>Luni\<close>, \<open>Sauna\<close>, \<open>18:00 - 19:00\<close>, parsed without a title, give exactly one
  row with days \<open>Luni\<close>, location \<open>Sauna\<close> and time \<open>18:00 - 19:00\<close>; the leading line
  \<open>Program\<close> is dropped before the loop, by a comparison of lower-cased strings.
\<close>

theorem parse_concrete:
  "parse_schedule_program [] None = []
   \<and> parse_schedule_program sample_text None
       = [\<lparr>days = cps ''Luni'', location = cps ''Sauna'', time = cps ''18:00 - 19:00''\<rparr>]
   \<and> clean_lines sample_text
       = [cps ''Program'', cps ''Luni'', cps ''Sauna'', cps ''18:00 - 19:00'']
   \<and> drop_program (clean_lines sample_text)
       = [cps ''Luni'', cps ''Sauna'', cps ''18:00 - 19:00'']"
proof (intro conjI)
  show "parse_schedule_program [] None = []"
    by (simp add: parse_schedule_program_def)
  have ne: "sample_text \<noteq> []"
    by (simp add: sample_text_def cps_def)
  have dt: "drop_title None [cps ''Luni'', cps ''Sauna'', cps ''18:00 - 19:00'']
      = [cps ''Luni'', cps ''Sauna'', cps ''18:00 - 19:00'']"
    by (simp add: drop_title_def truthy_def)
  show "parse_schedule_program sample_text None
      = [\<lparr>days = cps ''Luni'', location = cps ''Sauna'', time = cps ''18:00 - 19:00''\<rparr>]"
    unfolding parse_schedule_program_def Let_def lines_eval drop_program_eval dt sample_run
    using ne by simp
  show "clean_lines sample_text
      = [cps ''Program'', cps ''Luni'', cps ''Sauna'', cps ''18:00 - 19:00'']"
    by (rule lines_eval)
  show "drop_program (clean_lines sample_text)
      = [cps ''Luni'', cps ''Sauna'', cps ''18:00 - 19:00'']"
    by (simp only: lines_eval drop_program_eval)
qed

section \<open>Claims about unmatched_activities\<close>

lemma twin_names:
  "activity_names (build_index twin_catalog) = [cps ''Salt Sauna'', cps ''SALT SAUNA'']"
  by (simp add: names_build_index twin_catalog_def)

lemma twin_schedule_names:
  "schedule_names twin_schedule = [cps ''Salt Sauna'', cps ''SALT SAUNA'']"
  by (simp add: schedule_names_def twin_schedule_def or_empty_def)

lemma twin_lookup:
  "activity_details_map (build_index twin_catalog) (cps ''Salt Sauna'')
   = Some \<lparr>title = cps ''Salt Sauna'', members = 0\<rparr>"
  by (simp add: map_build_index twin_catalog_def cps_def)

lemma twin_match:
  "find_best_match sample_fuzz (build_index twin_catalog) (cps ''Salt Sauna'') default_threshold
   = (Some \<lparr>title = cps ''Salt Sauna'', members = 0\<rparr>, 100)"
  "find_best_match sample_fuzz (build_index twin_catalog) (cps ''SALT SAUNA'') default_threshold
   = (Some \<lparr>title = cps ''Salt Sauna'', members = 0\<rparr>, 100)"
proof -
  have "find_best_match sample_fuzz (build_index twin_catalog) (cps ''Salt Sauna'') default_threshold
      = (activity_details_map (build_index twin_catalog) (cps ''Salt Sauna''), 100)"
    by (rule find_best_match_exact[where pre = "[]" and post = "[cps ''SALT SAUNA'']"])
       (simp_all add: twin_names text_eval)
  then show "find_best_match sample_fuzz (build_index twin_catalog) (cps ''Salt Sauna'') default_threshold
      = (Some \<lparr>title = cps ''Salt Sauna'', members = 0\<rparr>, 100)"
    by (simp add: twin_lookup)
  have "find_best_match sample_fuzz (build_index twin_catalog) (cps ''SALT SAUNA'') default_threshold
      = (activity_details_map (build_index twin_catalog) (cps ''Salt Sauna''), 100)"
    by (rule find_best_match_exact[where pre = "[]" and post = "[cps ''SALT SAUNA'']"])
       (simp_all add: twin_names text_eval)
  then show "find_best_match sample_fuzz (build_index twin_catalog) (cps ''SALT SAUNA'') default_threshold
      = (Some \<lparr>title = cps ''Salt Sauna'', members = 0\<rparr>, 100)"
    by (simp add: twin_lookup)
qed

text \<open>
  Claim C8 (unmatched titles), as stated, fails in its last part: the schedule holds both
  titles of the sample catalog verbatim, and \<open>SALT SAUNA\<close> is still unmatched, because
  the exact loop resolves it to the record of \<open>Salt Sauna\<close>, the first name that equals
  it up to case.
\<close>

theorem unmatched_verbatim_twin:
  "activity_names (build_index twin_catalog) = [cps ''Salt Sauna'', cps ''SALT SAUNA'']
   \<and> schedule_names twin_schedule = [cps ''Salt Sauna'', cps ''SALT SAUNA'']
   \<and> unmatched_activities sample_fuzz (build_index twin_catalog) twin_schedule
       = [cps ''SALT SAUNA'']"
proof -
  have "matched_activity_titles sample_fuzz (build_index twin_catalog)
      [cps ''Salt Sauna'', cps ''SALT SAUNA''] = {cps ''Salt Sauna''}"
    by (simp add: matched_activity_titles_def twin_match)
  moreover have "cps ''SALT SAUNA'' \<noteq> cps ''Salt Sauna''"
    by (simp add: cps_def)
  ultimately show ?thesis
    by (simp add: unmatched_activities_def twin_names twin_schedule_names)
qed

text \<open>
  Claim C8, amended. On an index loaded from a catalog, \<open>unmatched_activities\<close> is the
  ordered sequence of names filtered, in catalog order, to those whose record no schedule
  name resolves to. For a schedule without names it is the whole sequence. For a schedule
  that holds every title verbatim it is empty, provided no two different titles of the
  catalog are equal up to case.
\<close>

theorem unmatched_catalog_order:
  "unmatched_activities fz (build_index acts) schedule =
     filter (\<lambda>n. \<forall>s\<in>set (schedule_names schedule).
                   fst (find_best_match fz (build_index acts) s default_threshold)
                   \<noteq> activity_details_map (build_index acts) n)
            (activity_names (build_index acts))
   \<and> (schedule_names schedule = [] \<longrightarrow>
        unmatched_activities fz (build_index acts) schedule = activity_names (build_index acts))
   \<and> (set (activity_names (build_index acts)) \<subseteq> set (schedule_names schedule)
       \<and> (\<forall>m\<in>set (activity_names (build_index acts)).
            \<forall>n\<in>set (activity_names (build_index acts)). lower m = lower n \<longrightarrow> m = n)
       \<longrightarrow> unmatched_activities fz (build_index acts) schedule = [])"
proof (intro conjI impI)
  let ?ix = "build_index acts"
  show "unmatched_activities fz ?ix schedule =
     filter (\<lambda>n. \<forall>s\<in>set (schedule_names schedule).
                   fst (find_best_match fz ?ix s default_threshold) \<noteq> activity_details_map ?ix n)
            (activity_names ?ix)"
    unfolding unmatched_activities_def
    by (rule filter_cong[OF refl]) (simp add: schedule_matched_iff)
next
  assume "schedule_names schedule = []"
  then show "unmatched_activities fz (build_index acts) schedule = activity_names (build_index acts)"
    by (simp add: unmatched_activities_def matched_activity_titles_def)
next
  let ?ix = "build_index acts"
  assume h: "set (activity_names ?ix) \<subseteq> set (schedule_names schedule)
       \<and> (\<forall>m\<in>set (activity_names ?ix). \<forall>n\<in>set (activity_names ?ix). lower m = lower n \<longrightarrow> m = n)"
  have "n \<in> matched_activity_titles fz ?ix (schedule_names schedule)"
    if n: "n \<in> set (activity_names ?ix)" for n
  proof -
    have "fst (find_best_match fz ?ix n default_threshold) = activity_details_map ?ix n"
      using n h by (intro verbatim_title_matched) auto
    moreover have "n \<in> set (schedule_names schedule)" using n h by auto
    ultimately show ?thesis using schedule_matched_iff[OF n] by blast
  qed
  then show "unmatched_activities fz ?ix schedule = []"
    by (simp add: unmatched_activities_def)
qed

theorem unmatched_catalog_order_witness:
  "unmatched_activities sample_fuzz (build_index sauna_catalog) sauna_schedule = []
   \<and> unmatched_activities sample_fuzz (build_index sauna_catalog) [] = 
       [cps ''Aufguss y'', cps ''Salt Sauna'', cps ''Salt Sauna'']"
proof -
  have sn: "schedule_names sauna_schedule = [cps ''Salt Sauna'', cps ''Aufguss y'', []]"
    by (simp add: schedule_names_def sauna_schedule_def or_empty_def)
  have h1: "set (activity_names (build_index sauna_catalog)) \<subseteq> set (schedule_names sauna_schedule)"
    by (simp add: sn sauna_names)
  have h2: "\<forall>m\<in>set (activity_names (build_index sauna_catalog)).
            \<forall>n\<in>set (activity_names (build_index sauna_catalog)). lower m = lower n \<longrightarrow> m = n"
    by (simp add: sauna_names text_eval)
  have h3: "schedule_names [] = []"
    by (simp add: schedule_names_def)
  from unmatched_catalog_order[of sample_fuzz sauna_catalog sauna_schedule] h1 h2
  have a: "unmatched_activities sample_fuzz (build_index sauna_catalog) sauna_schedule = []"
    by blast
  from unmatched_catalog_order[of sample_fuzz sauna_catalog "[]"] h3
  have "unmatched_activities sample_fuzz (build_index sauna_catalog) []
      = activity_names (build_index sauna_catalog)"
    by blast
  with a show ?thesis by (simp add: sauna_names)
qed

end
